theory Spec2Isabelle
  imports Main "HOL-Library.Sublist"
begin

section \<open>Strings as the adapters use them\<close>

text \<open>
  Text is a \<^typ>\<open>string\<close>. The adapters only look for ASCII delimiters (line feeds, the
  prefixes \<open>data: \<close> and \<open>event: \<close>), so decoded text is taken as it arrives: one element
  of a body's chunk list is the result of one \<open>decoder.decode(value, {stream: true})\<close>.
\<close>

definition NL :: char where
  "NL = CHR 0x0A"

definition quoted :: "string \<Rightarrow> string" where
  "quoted s = CHR 0x27 # s @ [CHR 0x27]"

text \<open>\<open>String.prototype.trim\<close>, on the ASCII white space characters.\<close>

definition is_space :: "char \<Rightarrow> bool" where
  "is_space c = (c \<in> set [CHR 0x20, CHR 0x09, CHR 0x0A, CHR 0x0B, CHR 0x0C, CHR 0x0D])"

definition trim :: "string \<Rightarrow> string" where
  "trim s = rev (dropWhile is_space (rev (dropWhile is_space s)))"

text \<open>
  \<open>s.startsWith(p) ? s.substring(p.length) : <no match>\<close>: the rest of \<open>s\<close> after the
  prefix \<open>p\<close>.
\<close>

fun strip_prefix :: "string \<Rightarrow> string \<Rightarrow> string option" where
  "strip_prefix [] s = Some s"
| "strip_prefix (p # ps) [] = None"
| "strip_prefix (p # ps) (c # cs) = (if p = c then strip_prefix ps cs else None)"

text \<open>
  \<open>boundary = buffer.indexOf('\n\n')\<close> with \<open>buffer.substring(0, boundary)\<close> and
  \<open>buffer.substring(boundary + 2)\<close>: the text before the first blank line and the text
  after it; \<open>None\<close> when \<open>indexOf\<close> returns \<open>-1\<close>.
\<close>

fun split_boundary :: "string \<Rightarrow> (string \<times> string) option" where
  "split_boundary (a # b # cs) =
     (if a = NL \<and> b = NL then Some ([], cs)
      else map_option (\<lambda>(x, r). (a # x, r)) (split_boundary (b # cs)))"
| "split_boundary [a] = None"
| "split_boundary [] = None"

text \<open>The same for a single line feed (\<open>buffer.indexOf('\n')\<close>).\<close>

fun split_newline :: "string \<Rightarrow> (string \<times> string) option" where
  "split_newline [] = None"
| "split_newline (a # cs) =
     (if a = NL then Some ([], cs)
      else map_option (\<lambda>(x, r). (a # x, r)) (split_newline cs))"

text \<open>\<open>a || b\<close> and truthiness on an optional string (\<open>undefined\<close> and \<open>''\<close> are falsy).\<close>

definition truthy :: "string option \<Rightarrow> bool" where
  "truthy s = (case s of None \<Rightarrow> False | Some x \<Rightarrow> x \<noteq> [])"

definition js_or :: "string option \<Rightarrow> string option \<Rightarrow> string option" where
  "js_or a b = (if truthy a then a else b)"

text \<open>The string of a truthy value, for \<open>if (v) { ... v ... }\<close>.\<close>

definition truthy_value :: "string option \<Rightarrow> string option" where
  "truthy_value s = (case s of None \<Rightarrow> None | Some x \<Rightarrow> if x = [] then None else Some x)"

text \<open>\<open>x || 'literal'\<close>, which always yields a string.\<close>

definition or_default :: "string option \<Rightarrow> string \<Rightarrow> string" where
  "or_default a d = (case a of None \<Rightarrow> d | Some x \<Rightarrow> if x = [] then d else x)"

text \<open>A value inside a template literal: \<open>undefined\<close> prints as the word.\<close>

definition template :: "string option \<Rightarrow> string" where
  "template a = (case a of None \<Rightarrow> ''undefined'' | Some x \<Rightarrow> x)"

text \<open>A status code inside a template literal.\<close>

fun digits :: "nat \<Rightarrow> string" where
  "digits n =
     (if n < 10 then [char_of (48 + n)]
      else digits (n div 10) @ [char_of (48 + n mod 10)])"

section \<open>Data model\<close>

text \<open>\<open>ToolCall\<close> / \<open>OpenAIToolCall\<close> of \<open>LLMProvider.ts\<close> and \<open>OpenAIProvider.ts\<close>.\<close>

record ToolCall =
  tc_id :: string
  tc_type :: string
  tc_name :: string
  tc_arguments :: string

datatype Role = System | User | Assistant | Tool

record OpenAIMessage =
  role :: Role
  content :: "string option"
  tool_calls :: "ToolCall list option"
  tool_call_id :: "string option"

datatype LLMProviderType = openai | anthropic | google | cohere | ollama

record ProviderSettings =
  apiKey :: "string option"
  apiEndpoint :: "string option"
  defaultModel :: "string option"
  temperature :: "int option"
  max_tokens :: "int option"

text \<open>
  \<open>ObsigentPluginSettings\<close>: the deprecated global fields and the per-provider table
  (\<open>Partial<Record<LLMProviderType, ProviderSettings>>\<close>).
\<close>

record ObsigentPluginSettings =
  settings_apiKey :: string
  settings_defaultModel :: "string option"
  settings_apiEndpoint :: "string option"
  selectedProvider :: LLMProviderType
  providerSettings :: "LLMProviderType \<Rightarrow> ProviderSettings option"

text \<open>
  The callbacks of \<open>StreamCallbacks\<close>, as a trace: an adapter's run is the list of the
  callback invocations it makes, in order. \<open>OnUpdate\<close> is the \<open>onUpdate\<close> of the current
  interface, \<open>OnContent\<close> the \<open>onContent\<close> of the earlier one, which the Ollama and
  Anthropic adapters still call.
\<close>

datatype CallbackEvent =
    OnUpdate string bool
  | OnContent string bool
  | OnToolCall "ToolCall list"
  | OnError string
  | OnFinish string

text \<open>A thrown value, as the \<open>catch\<close> blocks read it: \<open>error.name\<close> and \<open>error.message\<close>.\<close>

record Exn =
  exn_name :: string
  exn_message :: "string option"

text \<open>
  What the network does. \<open>fetch\<close> rejects or resolves to a response; a body is the list
  of decoded pieces its reader yields, ended by \<open>done\<close> or by a rejected \<open>read()\<close>.
  \<open>response.json()\<close> of an error response is read at the fields the adapters use
  (\<open>None\<close>: it rejects): \<open>error\<close>, an object with \<open>type\<close> and \<open>message\<close> or a
  string, and \<open>detail\<close>. \<open>response.text()\<close> resolves or rejects.
\<close>

datatype ReadEnd = EndOfStream | ReadRejected Exn

datatype ErrorField = ErrorObject "string option" "string option" | ErrorString string

record ErrorJson =
  error :: "ErrorField option"
  detail :: "string option"

record Response =
  ok :: bool
  status :: nat
  json_result :: "ErrorJson option"
  text_result :: "Exn + string"
  body :: "(string list \<times> ReadEnd) option"

datatype FetchResult = Rejected Exn | Resolved Response

datatype AnthropicRole = AUser | AAssistant

datatype RequestBody =
    OpenAIRequest string "OpenAIMessage list" "int option" "int option"
  | OllamaChatRequest string "OpenAIMessage list"
  | AnthropicRequest string "(AnthropicRole \<times> string) list" "string option"

record Request =
  url :: string
  headers :: "(string \<times> string) list"
  request_body :: RequestBody

text \<open>How a block of code ends: it runs to its end, returns from the function, or throws.\<close>

datatype Completion = Normal | Throws Exn

text \<open>The result of one \<open>generateResponse\<close>: the callbacks invoked and the requests fetched.\<close>

record Run =
  events :: "CallbackEvent list"
  requests :: "Request list"

section \<open>The OpenAI-compatible adapter\<close>

subsection \<open>Stream frames\<close>

text \<open>
  \<open>JSON.parse(jsonData)\<close>, read at the fields the adapter uses: \<open>parsed.choices[0].delta\<close>
  with \<open>content\<close> and \<open>tool_calls\<close>, and \<open>parsed.choices[0].finish_reason\<close>. An element of
  \<open>delta.tool_calls\<close> carries \<open>index\<close>, \<open>id\<close>, \<open>type\<close>, \<open>function.name\<close> and
  \<open>function.arguments\<close>, each but the index optional; the index is a natural number, the
  slot of the tool call in the wire protocol. The parser itself is the host's and is a
  parameter of the adapter: \<open>None\<close> is a \<open>SyntaxError\<close>.
\<close>

record ToolCallChunk =
  tcc_index :: nat
  tcc_id :: "string option"
  tcc_type :: "string option"
  tcc_name :: "string option"
  tcc_arguments :: "string option"

record Delta =
  delta_content :: "string option"
  delta_tool_calls :: "ToolCallChunk list option"

record Choice =
  delta :: "Delta option"
  finish_reason :: "string option"

record StreamChunk =
  choices :: "Choice list option"

subsection \<open>The tool-call accumulator\<close>

text \<open>
  \<open>currentToolCallsAccumulator\<close> is a JavaScript array written by index: a list whose
  holes are \<open>None\<close>. Writing past the end extends the array with holes.
\<close>

type_synonym Accumulator = "ToolCall option list"

definition arr_get :: "'a option list \<Rightarrow> nat \<Rightarrow> 'a option" where
  "arr_get xs i = (if i < length xs then xs ! i else None)"

definition arr_set :: "'a option list \<Rightarrow> nat \<Rightarrow> 'a \<Rightarrow> 'a option list" where
  "arr_set xs i v =
     (if i < length xs then xs[i := Some v]
      else xs @ replicate (i - length xs) None @ [Some v])"

definition fresh_tool_call :: ToolCall where
  "fresh_tool_call = \<lparr>tc_id = [], tc_type = ''function'', tc_name = [], tc_arguments = []\<rparr>"

text \<open>\<open>if (v) target = f(v)\<close> for an optional string \<open>v\<close>.\<close>

definition when_truthy :: "string option \<Rightarrow> (string \<Rightarrow> 'a \<Rightarrow> 'a) \<Rightarrow> 'a \<Rightarrow> 'a" where
  "when_truthy v f r = (case v of None \<Rightarrow> r | Some s \<Rightarrow> if s = [] then r else f s r)"

text \<open>The four guarded assignments of the \<open>forEach\<close> body, on the record of one slot.\<close>

definition apply_chunk :: "ToolCallChunk \<Rightarrow> ToolCall \<Rightarrow> ToolCall" where
  "apply_chunk c r =
     when_truthy (tcc_arguments c) (\<lambda>s r. r\<lparr>tc_arguments := tc_arguments r @ s\<rparr>)
       (when_truthy (tcc_name c) (\<lambda>s r. r\<lparr>tc_name := tc_name r @ s\<rparr>)
         (when_truthy (tcc_type c) (\<lambda>s r. r\<lparr>tc_type := s\<rparr>)
           (when_truthy (tcc_id c) (\<lambda>s r. r\<lparr>tc_id := s\<rparr>) r)))"

text \<open>
  One iteration of \<open>delta.tool_calls.forEach\<close>: a slot that is empty is first set to the
  record with empty fields, then the fragment is applied to the slot's record.
\<close>

definition accumulate :: "Accumulator \<Rightarrow> ToolCallChunk \<Rightarrow> Accumulator" where
  "accumulate acc c =
     (let i = tcc_index c;
          r = (case arr_get acc i of None \<Rightarrow> fresh_tool_call | Some r \<Rightarrow> r)
      in arr_set acc i (apply_chunk c r))"

text \<open>
  \<open>currentToolCallsAccumulator.filter(tc => tc && tc.id && tc.function.name &&
  tc.function.arguments)\<close>: \<open>filter\<close> visits the indices in ascending order and skips holes.
\<close>

definition complete :: "ToolCall \<Rightarrow> bool" where
  "complete tc = (tc_id tc \<noteq> [] \<and> tc_name tc \<noteq> [] \<and> tc_arguments tc \<noteq> [])"

definition completed_calls :: "Accumulator \<Rightarrow> ToolCall list" where
  "completed_calls acc =
     List.map_filter (\<lambda>slot. case slot of None \<Rightarrow> None
                             | Some tc \<Rightarrow> if complete tc then Some tc else None) acc"

subsection \<open>The read loop\<close>

text \<open>
  The optional \<open>callbacks.onToolCall\<close>: \<open>None\<close> when the property is absent; otherwise the
  function tells, for a batch, whether the awaited call returns (\<open>True\<close>) or throws.
\<close>

type_synonym OnToolCall = "(ToolCall list \<Rightarrow> bool) option"

text \<open>
  The body of the \<open>try\<close> after \<open>JSON.parse\<close> succeeded. The result is the callbacks
  invoked, the accumulator, and whether the function returned. A throw of \<open>onToolCall\<close>
  lands in the \<open>catch\<close> around the frame, which logs it: \<open>onFinish\<close> is skipped and
  the loop goes on.
\<close>

definition process_parsed ::
  "OnToolCall \<Rightarrow> Accumulator \<Rightarrow> StreamChunk \<Rightarrow> CallbackEvent list \<times> Accumulator \<times> bool" where
  "process_parsed onToolCall acc parsed =
     (case choices parsed of
        None \<Rightarrow> ([], acc, False)
      | Some [] \<Rightarrow> ([], acc, False)
      | Some (choice # _) \<Rightarrow>
          (let d = delta choice;
               text = (case d of None \<Rightarrow> None | Some d \<Rightarrow> delta_content d);
               ev = (case truthy_value text of None \<Rightarrow> [] | Some t \<Rightarrow> [OnUpdate t False]);
               acc' = (case d of None \<Rightarrow> acc
                       | Some d \<Rightarrow>
                           (case delta_tool_calls d of None \<Rightarrow> acc
                            | Some tcs \<Rightarrow> foldl accumulate acc tcs))
           in case truthy_value (finish_reason choice) of
                None \<Rightarrow> (ev, acc', False)
              | Some reason \<Rightarrow>
                  if reason = ''tool_calls'' then
                    (case onToolCall of
                       None \<Rightarrow> (ev @ [OnFinish reason], acc', True)
                     | Some returns \<Rightarrow>
                         if returns (completed_calls acc')
                         then (ev @ [OnToolCall (completed_calls acc'), OnFinish reason], acc', True)
                         else (ev @ [OnToolCall (completed_calls acc')], acc', False))
                  else (ev @ [OnUpdate [] True, OnFinish reason], acc', True)))"

text \<open>One frame: the text between two blank lines.\<close>

definition process_frame ::
  "(string \<Rightarrow> StreamChunk option) \<Rightarrow> OnToolCall \<Rightarrow> Accumulator \<Rightarrow> string
     \<Rightarrow> CallbackEvent list \<times> Accumulator \<times> bool" where
  "process_frame parse onToolCall acc chunk =
     (case strip_prefix ''data: '' chunk of
        None \<Rightarrow> ([], acc, False)
      | Some jsonData \<Rightarrow>
          if trim jsonData = ''[DONE]'' then ([], acc, False)
          else (case parse jsonData of
                  None \<Rightarrow> ([], acc, False)
                | Some parsed \<Rightarrow> process_parsed onToolCall acc parsed))"

text \<open>
  The inner \<open>while (boundary !== -1)\<close>: the frames that are complete in the buffer are
  processed in order. The result is the callbacks invoked and, unless the function
  returned, the rest of the buffer and the accumulator.
\<close>

function drain ::
  "(string \<Rightarrow> StreamChunk option) \<Rightarrow> OnToolCall \<Rightarrow> string \<Rightarrow> Accumulator
     \<Rightarrow> CallbackEvent list \<times> (string \<times> Accumulator) option" where
  "drain parse onToolCall buffer acc =
     (case split_boundary buffer of
        None \<Rightarrow> ([], Some (buffer, acc))
      | Some (chunk, rest) \<Rightarrow>
          (case process_frame parse onToolCall acc chunk of
             (evs, acc', returned) \<Rightarrow>
               if returned then (evs, None)
               else (case drain parse onToolCall rest acc' of
                       (evs', r) \<Rightarrow> (evs @ evs', r))))"
  by pat_completeness auto
termination
proof (relation "measure (\<lambda>(parse, onToolCall, buffer, acc). length buffer)")
  show "wf (measure (\<lambda>(parse :: string \<Rightarrow> StreamChunk option, onToolCall :: OnToolCall,
                        buffer :: string, acc :: Accumulator). length buffer))"
    by simp
next
  fix parse :: "string \<Rightarrow> StreamChunk option" and onToolCall :: OnToolCall
    and buffer :: string and acc :: Accumulator and x2 chunk rest
  assume "split_boundary buffer = Some x2" and "(chunk, rest) = x2"
  then have found: "split_boundary buffer = Some (chunk, rest)"
    by simp
  have "split_boundary s = Some (c, r) \<Longrightarrow> length r < length s" for s c r
  proof (induction s arbitrary: c rule: split_boundary.induct)
    case (1 a b cs)
    then show ?case
      by (fastforce split: if_splits)
  qed simp_all
  from this [OF found]
  show "((parse, onToolCall, rest, acc'), (parse, onToolCall, buffer, acc))
          \<in> measure (\<lambda>(parse, onToolCall, buffer, acc). length buffer)" for acc'
    by simp
qed

text \<open>
  The outer \<open>while (true)\<close> over \<open>reader.read()\<close>: each piece is appended to the buffer
  and the buffer drained. When the reader is done the loop breaks, and nothing follows
  the loop.
\<close>

fun read_loop ::
  "(string \<Rightarrow> StreamChunk option) \<Rightarrow> OnToolCall \<Rightarrow> string \<Rightarrow> Accumulator
     \<Rightarrow> string list \<Rightarrow> ReadEnd \<Rightarrow> CallbackEvent list \<times> Completion" where
  "read_loop parse onToolCall buffer acc [] EndOfStream = ([], Normal)"
| "read_loop parse onToolCall buffer acc [] (ReadRejected e) = ([], Throws e)"
| "read_loop parse onToolCall buffer acc (piece # pieces) end =
     (case drain parse onToolCall (buffer @ piece) acc of
        (evs, None) \<Rightarrow> (evs, Normal)
      | (evs, Some (buffer', acc')) \<Rightarrow>
          (case read_loop parse onToolCall buffer' acc' pieces end of
             (evs', c) \<Rightarrow> (evs @ evs', c)))"

subsection \<open>\<open>OpenAIProvider.generateResponse\<close>\<close>

text \<open>
  The error text of a response that is not \<open>ok\<close>. A rejection of \<open>response.json()\<close> or of
  the first \<open>response.text()\<close> is caught and the fallback text built, again from
  \<open>response.text()\<close>; a rejection there leaves the outer \<open>try\<close> (\<open>Inl\<close>).
\<close>

definition error_truthy :: "ErrorField option \<Rightarrow> bool" where
  "error_truthy e = (case e of None \<Rightarrow> False | Some (ErrorObject t m) \<Rightarrow> True
                     | Some (ErrorString s) \<Rightarrow> s \<noteq> [])"

definition error_type :: "ErrorField option \<Rightarrow> string option" where
  "error_type e = (case e of Some (ErrorObject t m) \<Rightarrow> t | _ \<Rightarrow> None)"

definition error_message :: "ErrorField option \<Rightarrow> string option" where
  "error_message e = (case e of Some (ErrorObject t m) \<Rightarrow> m | _ \<Rightarrow> None)"

definition http_fallback :: "Response \<Rightarrow> string \<Rightarrow> Exn + string" where
  "http_fallback response dflt =
     (case text_result response of
        Inl e \<Rightarrow> Inl e
      | Inr t \<Rightarrow> Inr (''HTTP Error '' @ digits (status response) @ '': ''
                      @ (if t = [] then dflt else t)))"

definition openai_error_details :: "Response \<Rightarrow> Exn + string" where
  "openai_error_details response =
     (case json_result response of
        None \<Rightarrow> http_fallback response ''Failed to parse error response.''
      | Some errorJson \<Rightarrow>
          if error_truthy (error errorJson)
          then Inr (or_default (error_type (error errorJson)) ''API Error'' @ '': ''
                    @ template (error_message (error errorJson)))
          else (case text_result response of
                  Inl e \<Rightarrow> http_fallback response ''Failed to parse error response.''
                | Inr t \<Rightarrow> http_fallback response ''No additional details''))"

text \<open>The \<open>try\<close> block: the callbacks invoked and how the block ends.\<close>

definition openai_try ::
  "(string \<Rightarrow> StreamChunk option) \<Rightarrow> OnToolCall \<Rightarrow> FetchResult
     \<Rightarrow> CallbackEvent list \<times> Completion" where
  "openai_try parse onToolCall result =
     (case result of
        Rejected e \<Rightarrow> ([], Throws e)
      | Resolved response \<Rightarrow>
          if \<not> ok response then
            (case openai_error_details response of
               Inl e \<Rightarrow> ([], Throws e)
             | Inr errorDetails \<Rightarrow> ([OnError errorDetails], Normal))
          else (case body response of
                  None \<Rightarrow> ([OnError ''Response body is null.''], Normal)
                | Some (pieces, end) \<Rightarrow> read_loop parse onToolCall [] [] pieces end))"

text \<open>The \<open>catch\<close> block.\<close>

definition openai_catch :: "Completion \<Rightarrow> CallbackEvent list" where
  "openai_catch c =
     (case c of
        Normal \<Rightarrow> []
      | Throws e \<Rightarrow>
          if exn_name e = ''AbortError'' then [OnFinish ''aborted'']
          else [OnError (''Failed to connect to OpenAI API (stream): ''
                         @ or_default (exn_message e) ''Unknown error'')])"

definition no_settings :: ProviderSettings where
  "no_settings = \<lparr>apiKey = None, apiEndpoint = None, defaultModel = None,
                   temperature = None, max_tokens = None\<rparr>"

definition OpenAIProvider_generateResponse ::
  "(string \<Rightarrow> StreamChunk option) \<Rightarrow> (Request \<Rightarrow> FetchResult) \<Rightarrow> OpenAIMessage list
     \<Rightarrow> ObsigentPluginSettings \<Rightarrow> OnToolCall \<Rightarrow> Run" where
  "OpenAIProvider_generateResponse parse fetch messages settings onToolCall =
     (let ps = (case providerSettings settings openai of None \<Rightarrow> no_settings | Some p \<Rightarrow> p);
          key = js_or (apiKey ps) (Some (settings_apiKey settings));
          endpoint = js_or (apiEndpoint ps) (settings_apiEndpoint settings);
          model = js_or (defaultModel ps) (settings_defaultModel settings)
      in case truthy_value endpoint of
           None \<Rightarrow>
             \<lparr>events = [OnError ''OpenAI API endpoint is not set. Please configure it in settings.''],
              requests = []\<rparr>
         | Some endpoint \<Rightarrow>
             (case truthy_value model of
                None \<Rightarrow>
                  \<lparr>events = [OnError ''OpenAI Default model is not set. Please configure it in settings.''],
                   requests = []\<rparr>
              | Some model \<Rightarrow>
                  (let authorization =
                         (case truthy_value key of
                            None \<Rightarrow> []
                          | Some k \<Rightarrow> if trim k \<noteq> [] then [(''Authorization'', ''Bearer '' @ k)]
                                      else []);
                       request =
                         \<lparr>url = endpoint,
                          headers = (''Content-Type'', ''application/json'') # authorization,
                          request_body = OpenAIRequest model messages (temperature ps) (max_tokens ps)\<rparr>
                   in case openai_try parse onToolCall (fetch request) of
                        (evs, c) \<Rightarrow> \<lparr>events = evs @ openai_catch c, requests = [request]\<rparr>)))"

section \<open>The Ollama adapter\<close>

text \<open>\<open>OllamaChatStreamResponse\<close>, at the fields the adapter reads.\<close>

record OllamaChatStreamResponse =
  message_content :: "string option"
  response_done :: bool
  stream_error :: "string option"

text \<open>One line of the stream, inside the inner \<open>while\<close>; the flag tells a \<open>return\<close>.\<close>

definition ollama_line ::
  "(string \<Rightarrow> OllamaChatStreamResponse option) \<Rightarrow> string \<Rightarrow> CallbackEvent list \<times> bool" where
  "ollama_line parse line =
     (if trim line = [] then ([], False)
      else (case parse line of
              None \<Rightarrow> ([], False)
            | Some parsed \<Rightarrow>
                (case truthy_value (stream_error parsed) of
                   Some err \<Rightarrow> ([OnError (''Ollama stream error: '' @ err), OnFinish ''error''], True)
                 | None \<Rightarrow>
                     (let ev = (case truthy_value (message_content parsed) of
                                  None \<Rightarrow> [] | Some t \<Rightarrow> [OnContent t False])
                      in if response_done parsed
                         then (ev @ [OnContent [] True, OnFinish ''stop''], True)
                         else (ev, False)))))"

function ollama_drain ::
  "(string \<Rightarrow> OllamaChatStreamResponse option) \<Rightarrow> string
     \<Rightarrow> CallbackEvent list \<times> string option" where
  "ollama_drain parse buffer =
     (case split_newline buffer of
        None \<Rightarrow> ([], Some buffer)
      | Some (line, rest) \<Rightarrow>
          (case ollama_line parse line of
             (evs, returned) \<Rightarrow>
               if returned then (evs, None)
               else (case ollama_drain parse rest of (evs', r) \<Rightarrow> (evs @ evs', r))))"
  by pat_completeness auto
termination
proof (relation "measure (\<lambda>(parse, buffer). length buffer)")
  show "wf (measure (\<lambda>(parse :: string \<Rightarrow> OllamaChatStreamResponse option, buffer :: string).
                        length buffer))"
    by simp
next
  fix parse :: "string \<Rightarrow> OllamaChatStreamResponse option"
    and buffer :: string and x2 line rest
  assume "split_newline buffer = Some x2" and "(line, rest) = x2"
  then have found: "split_newline buffer = Some (line, rest)"
    by simp
  have "split_newline s = Some (c, r) \<Longrightarrow> length r < length s" for s c r
    by (induction s arbitrary: c) (fastforce split: if_splits)+
  from this [OF found]
  show "((parse, rest), (parse, buffer)) \<in> measure (\<lambda>(parse, buffer). length buffer)"
    by simp
qed

text \<open>
  What is left in the buffer when the reader is done: a last object without its line
  feed is parsed, and \<open>onFinish\<close> is called in every case.
\<close>

definition ollama_done ::
  "(string \<Rightarrow> OllamaChatStreamResponse option) \<Rightarrow> string \<Rightarrow> CallbackEvent list" where
  "ollama_done parse buffer =
     (if trim buffer = [] then [OnFinish ''stop'']
      else (case parse buffer of
              None \<Rightarrow> [OnFinish ''stop'']
            | Some parsed \<Rightarrow>
                (case truthy_value (message_content parsed) of
                   None \<Rightarrow> [] | Some t \<Rightarrow> [OnContent t (response_done parsed)])
                @ (if response_done parsed
                   then [OnFinish (if truthy (stream_error parsed) then ''error'' else ''stop'')]
                   else [OnFinish ''stop''])))"

fun ollama_read_loop ::
  "(string \<Rightarrow> OllamaChatStreamResponse option) \<Rightarrow> string \<Rightarrow> string list \<Rightarrow> ReadEnd
     \<Rightarrow> CallbackEvent list \<times> Completion" where
  "ollama_read_loop parse buffer [] EndOfStream = (ollama_done parse buffer, Normal)"
| "ollama_read_loop parse buffer [] (ReadRejected e) = ([], Throws e)"
| "ollama_read_loop parse buffer (piece # pieces) end =
     (case ollama_drain parse (buffer @ piece) of
        (evs, None) \<Rightarrow> (evs, Normal)
      | (evs, Some buffer') \<Rightarrow>
          (case ollama_read_loop parse buffer' pieces end of
             (evs', c) \<Rightarrow> (evs @ evs', c)))"

definition error_to_string :: "ErrorField option \<Rightarrow> string" where
  "error_to_string e = (case e of None \<Rightarrow> ''undefined''
                        | Some (ErrorObject t m) \<Rightarrow> ''[object Object]''
                        | Some (ErrorString s) \<Rightarrow> s)"

definition ollama_error_details :: "Response \<Rightarrow> Exn + string" where
  "ollama_error_details response =
     (case json_result response of
        None \<Rightarrow> http_fallback response ''Failed to parse error response.''
      | Some errorJson \<Rightarrow>
          if error_truthy (error errorJson)
          then Inr (''Ollama API Error: '' @ error_to_string (error errorJson))
          else (case text_result response of
                  Inl e \<Rightarrow> http_fallback response ''Failed to parse error response.''
                | Inr t \<Rightarrow> Inr (''Ollama API Error: '' @ t)))"

definition ollama_try ::
  "(string \<Rightarrow> OllamaChatStreamResponse option) \<Rightarrow> FetchResult
     \<Rightarrow> CallbackEvent list \<times> Completion" where
  "ollama_try parse result =
     (case result of
        Rejected e \<Rightarrow> ([], Throws e)
      | Resolved response \<Rightarrow>
          if \<not> ok response then
            (case ollama_error_details response of
               Inl e \<Rightarrow> ([], Throws e)
             | Inr errorDetails \<Rightarrow> ([OnError errorDetails], Normal))
          else (case body response of
                  None \<Rightarrow> ([OnError ''Response body is null from Ollama.''], Normal)
                | Some (pieces, end) \<Rightarrow> ollama_read_loop parse [] pieces end))"

definition ollama_catch :: "Completion \<Rightarrow> CallbackEvent list" where
  "ollama_catch c =
     (case c of
        Normal \<Rightarrow> []
      | Throws e \<Rightarrow>
          if exn_name e = ''AbortError'' then [OnFinish ''aborted'']
          else [OnError (''Failed to connect to Ollama API: ''
                         @ or_default (exn_message e) ''Unknown error''),
                OnFinish ''error''])"

definition OllamaProvider_generateResponse ::
  "(string \<Rightarrow> OllamaChatStreamResponse option) \<Rightarrow> (Request \<Rightarrow> FetchResult)
     \<Rightarrow> OpenAIMessage list \<Rightarrow> ObsigentPluginSettings \<Rightarrow> Run" where
  "OllamaProvider_generateResponse parse fetch messages settings =
     (let missing = \<lparr>events = [OnError ''Ollama API endpoint or default model is not set.''],
                      requests = []\<rparr>
      in case providerSettings settings ollama of
           None \<Rightarrow> missing
         | Some ps \<Rightarrow>
             (case truthy_value (apiEndpoint ps) of
                None \<Rightarrow> missing
              | Some endpoint \<Rightarrow>
                  (case truthy_value (defaultModel ps) of
                     None \<Rightarrow> missing
                   | Some model \<Rightarrow>
                       (let request =
                              \<lparr>url = endpoint,
                               headers = [(''Content-Type'', ''application/json'')],
                               request_body = OllamaChatRequest model messages\<rparr>
                        in case ollama_try parse (fetch request) of
                             (evs, c) \<Rightarrow>
                               \<lparr>events = evs @ ollama_catch c, requests = [request]\<rparr>))))"

section \<open>The Anthropic adapter\<close>

text \<open>\<open>AnthropicStreamEvent\<close>, at the fields the adapter reads.\<close>

record AnthropicStreamEvent =
  delta_type :: "string option"
  delta_text :: "string option"
  event_error_message :: "string option"

text \<open>
  \<open>convertToAnthropicMessages\<close>: the last system message with content is the system
  prompt; user and assistant messages with content are kept; the rest is skipped.
\<close>

definition convert_message ::
  "(AnthropicRole \<times> string) list \<times> string option \<Rightarrow> OpenAIMessage
     \<Rightarrow> (AnthropicRole \<times> string) list \<times> string option" where
  "convert_message state msg =
     (case state of
        (anthropicMessages, systemPrompt) \<Rightarrow>
          (case role msg of
             System \<Rightarrow>
               (case truthy_value (content msg) of
                  None \<Rightarrow> (anthropicMessages, systemPrompt)
                | Some t \<Rightarrow> (anthropicMessages, Some t))
           | User \<Rightarrow>
               (case truthy_value (content msg) of
                  None \<Rightarrow> (anthropicMessages, systemPrompt)
                | Some t \<Rightarrow> (anthropicMessages @ [(AUser, t)], systemPrompt))
           | Assistant \<Rightarrow>
               (case truthy_value (content msg) of
                  None \<Rightarrow> (anthropicMessages, systemPrompt)
                | Some t \<Rightarrow> (anthropicMessages @ [(AAssistant, t)], systemPrompt))
           | Tool \<Rightarrow> (anthropicMessages, systemPrompt)))"

definition convertToAnthropicMessages ::
  "OpenAIMessage list \<Rightarrow> (AnthropicRole \<times> string) list \<times> string option" where
  "convertToAnthropicMessages messages = foldl convert_message ([], None) messages"

text \<open>\<open>s.split('\n')\<close>.\<close>

fun split_lines :: "string \<Rightarrow> string list" where
  "split_lines [] = [[]]"
| "split_lines (c # cs) =
     (case split_lines cs of
        [] \<Rightarrow> [[c]]
      | l # ls \<Rightarrow> if c = NL then [] # l # ls else (c # l) # ls)"

text \<open>The \<open>for\<close> over the lines of one event: the last \<open>event:\<close> and \<open>data:\<close> lines win.\<close>

fun event_fields :: "string list \<Rightarrow> string \<times> string \<Rightarrow> string \<times> string" where
  "event_fields [] (eventType, eventData) = (eventType, eventData)"
| "event_fields (line # lines) (eventType, eventData) =
     (case strip_prefix ''event: '' line of
        Some t \<Rightarrow> event_fields lines (trim t, eventData)
      | None \<Rightarrow>
          (case strip_prefix ''data: '' line of
             Some d \<Rightarrow> event_fields lines (eventType, trim d)
           | None \<Rightarrow> event_fields lines (eventType, eventData)))"

definition anthropic_event ::
  "(string \<Rightarrow> AnthropicStreamEvent option) \<Rightarrow> string \<Rightarrow> CallbackEvent list \<times> bool" where
  "anthropic_event parse block =
     (case event_fields (split_lines block) ([], []) of
        (eventType, eventData) \<Rightarrow>
          if eventData = [] then ([], False)
          else (case parse eventData of
                  None \<Rightarrow> ([], False)
                | Some parsedData \<Rightarrow>
                    if eventType = ''content_block_delta'' then
                      (if delta_type parsedData = Some ''text_delta''
                       then (case truthy_value (delta_text parsedData) of
                               None \<Rightarrow> ([], False)
                             | Some t \<Rightarrow> ([OnContent t False], False))
                       else ([], False))
                    else if eventType = ''message_stop'' then ([OnFinish ''stop''], True)
                    else if eventType = ''error'' then
                      ([OnError (''Anthropic API Error: ''
                                 @ or_default (event_error_message parsedData)
                                     ''Unknown stream error'')], True)
                    else ([], False)))"

function anthropic_drain ::
  "(string \<Rightarrow> AnthropicStreamEvent option) \<Rightarrow> string
     \<Rightarrow> CallbackEvent list \<times> string option" where
  "anthropic_drain parse buffer =
     (case split_boundary buffer of
        None \<Rightarrow> ([], Some buffer)
      | Some (block, rest) \<Rightarrow>
          (case anthropic_event parse block of
             (evs, returned) \<Rightarrow>
               if returned then (evs, None)
               else (case anthropic_drain parse rest of (evs', r) \<Rightarrow> (evs @ evs', r))))"
  by pat_completeness auto
termination
proof (relation "measure (\<lambda>(parse, buffer). length buffer)")
  show "wf (measure (\<lambda>(parse :: string \<Rightarrow> AnthropicStreamEvent option, buffer :: string).
                        length buffer))"
    by simp
next
  fix parse :: "string \<Rightarrow> AnthropicStreamEvent option"
    and buffer :: string and x2 block rest
  assume "split_boundary buffer = Some x2" and "(block, rest) = x2"
  then have found: "split_boundary buffer = Some (block, rest)"
    by simp
  have "split_boundary s = Some (c, r) \<Longrightarrow> length r < length s" for s c r
  proof (induction s arbitrary: c rule: split_boundary.induct)
    case (1 a b cs)
    then show ?case
      by (fastforce split: if_splits)
  qed simp_all
  from this [OF found]
  show "((parse, rest), (parse, buffer)) \<in> measure (\<lambda>(parse, buffer). length buffer)"
    by simp
qed

text \<open>After the loop the adapter calls \<open>onFinish("done_outside_loop")\<close>.\<close>

fun anthropic_read_loop ::
  "(string \<Rightarrow> AnthropicStreamEvent option) \<Rightarrow> string \<Rightarrow> string list \<Rightarrow> ReadEnd
     \<Rightarrow> CallbackEvent list \<times> Completion" where
  "anthropic_read_loop parse buffer [] EndOfStream = ([OnFinish ''done_outside_loop''], Normal)"
| "anthropic_read_loop parse buffer [] (ReadRejected e) = ([], Throws e)"
| "anthropic_read_loop parse buffer (piece # pieces) end =
     (case anthropic_drain parse (buffer @ piece) of
        (evs, None) \<Rightarrow> (evs, Normal)
      | (evs, Some buffer') \<Rightarrow>
          (case anthropic_read_loop parse buffer' pieces end of
             (evs', c) \<Rightarrow> (evs @ evs', c)))"

definition anthropic_error_details :: "Response \<Rightarrow> Exn + string" where
  "anthropic_error_details response =
     (case json_result response of
        None \<Rightarrow> http_fallback response ''Failed to parse error response.''
      | Some errorJson \<Rightarrow>
          if error_truthy (error errorJson) \<and> truthy (error_message (error errorJson))
          then Inr (or_default (error_type (error errorJson)) ''API Error'' @ '': ''
                    @ template (error_message (error errorJson)))
          else (case truthy_value (detail errorJson) of
                  Some d \<Rightarrow> Inr (''API Error: '' @ d)
                | None \<Rightarrow>
                    (case text_result response of
                       Inl e \<Rightarrow> http_fallback response ''Failed to parse error response.''
                     | Inr t \<Rightarrow> http_fallback response ''No additional details'')))"

definition anthropic_try ::
  "(string \<Rightarrow> AnthropicStreamEvent option) \<Rightarrow> FetchResult
     \<Rightarrow> CallbackEvent list \<times> Completion" where
  "anthropic_try parse result =
     (case result of
        Rejected e \<Rightarrow> ([], Throws e)
      | Resolved response \<Rightarrow>
          if \<not> ok response then
            (case anthropic_error_details response of
               Inl e \<Rightarrow> ([], Throws e)
             | Inr errorDetails \<Rightarrow> ([OnError errorDetails], Normal))
          else (case body response of
                  None \<Rightarrow> ([OnError ''Response body is null.''], Normal)
                | Some (pieces, end) \<Rightarrow> anthropic_read_loop parse [] pieces end))"

definition anthropic_catch :: "Completion \<Rightarrow> CallbackEvent list" where
  "anthropic_catch c =
     (case c of
        Normal \<Rightarrow> []
      | Throws e \<Rightarrow>
          if exn_name e = ''AbortError'' then [OnFinish ''aborted'']
          else [OnError (''Failed to connect to Anthropic API: ''
                         @ or_default (exn_message e) ''Unknown error'')])"

text \<open>\<open>apiBaseUrl.replace(/\/+$/, '')\<close>: the trailing slashes are dropped.\<close>

definition strip_trailing_slashes :: "string \<Rightarrow> string" where
  "strip_trailing_slashes s = rev (dropWhile (\<lambda>c. c = CHR ''/'') (rev s))"

definition AnthropicProvider_generateResponse ::
  "(string \<Rightarrow> AnthropicStreamEvent option) \<Rightarrow> (Request \<Rightarrow> FetchResult)
     \<Rightarrow> OpenAIMessage list \<Rightarrow> ObsigentPluginSettings \<Rightarrow> Run" where
  "AnthropicProvider_generateResponse parse fetch messages settings =
     (let ps = (case providerSettings settings anthropic of None \<Rightarrow> no_settings | Some p \<Rightarrow> p);
          apiBaseUrl = or_default (apiEndpoint ps) ''https://api.anthropic.com'';
          model = or_default (defaultModel ps) ''claude-3-haiku-20240307''
      in case truthy_value (apiKey ps) of
           None \<Rightarrow> \<lparr>events = [OnError ''Anthropic API key is not set.''], requests = []\<rparr>
         | Some key \<Rightarrow>
             if model = [] then
               \<lparr>events = [OnError ''Anthropic Default model is not set.''], requests = []\<rparr>
             else
               (case convertToAnthropicMessages messages of
                  (anthropicMessages, systemPrompt) \<Rightarrow>
                    if anthropicMessages = [] \<and> systemPrompt = None then
                      \<lparr>events = [OnError ''No messages to send to Anthropic.''], requests = []\<rparr>
                    else
                      (let request =
                             \<lparr>url = strip_trailing_slashes apiBaseUrl @ ''/v1/messages'',
                              headers = [(''Content-Type'', ''application/json''),
                                         (''x-api-key'', key),
                                         (''anthropic-version'', ''2023-06-01'')],
                              request_body = AnthropicRequest model anthropicMessages systemPrompt\<rparr>
                       in case anthropic_try parse (fetch request) of
                            (evs, c) \<Rightarrow>
                              \<lparr>events = evs @ anthropic_catch c, requests = [request]\<rparr>)))"

section \<open>The adapters together\<close>

datatype Adapter = OpenAIAdapter | OllamaAdapter | AnthropicAdapter

text \<open>The host's \<open>JSON.parse\<close>, read at each adapter's frame type.\<close>

record Parsers =
  parse_openai :: "string \<Rightarrow> StreamChunk option"
  parse_ollama :: "string \<Rightarrow> OllamaChatStreamResponse option"
  parse_anthropic :: "string \<Rightarrow> AnthropicStreamEvent option"

definition generateResponse ::
  "Adapter \<Rightarrow> Parsers \<Rightarrow> (Request \<Rightarrow> FetchResult) \<Rightarrow> OpenAIMessage list
     \<Rightarrow> ObsigentPluginSettings \<Rightarrow> OnToolCall \<Rightarrow> Run" where
  "generateResponse adapter parsers fetch messages settings onToolCall =
     (case adapter of
        OpenAIAdapter \<Rightarrow>
          OpenAIProvider_generateResponse (parse_openai parsers) fetch messages settings onToolCall
      | OllamaAdapter \<Rightarrow>
          OllamaProvider_generateResponse (parse_ollama parsers) fetch messages settings
      | AnthropicAdapter \<Rightarrow>
          AnthropicProvider_generateResponse (parse_anthropic parsers) fetch messages settings)"

section \<open>The tool registry and executor\<close>

text \<open>
  Tool arguments are the value of \<open>JSON.parse(toolCall.function.arguments)\<close>. Numbers are
  integers here; the executor only passes argument values on.
\<close>

datatype json =
    JNull
  | JBool bool
  | JNum int
  | JStr string
  | JArr "json list"
  | JObj "(string \<times> json) list"

text \<open>\<open>args?.key\<close>: \<open>undefined\<close> on \<open>null\<close> and on a value without that property.\<close>

definition member :: "json \<Rightarrow> string \<Rightarrow> json option" where
  "member args key = (case args of JObj kvs \<Rightarrow> map_of kvs key | _ \<Rightarrow> None)"

record Command =
  command_id :: string
  command_name :: string

text \<open>\<open>McpToolCallResult\<close>: \<open>isError\<close> and the \<open>text\<close> of each content block.\<close>

record McpToolCallResult =
  isError :: bool
  result_content :: "string list"

record McpTool =
  tool_name :: string
  tool_description :: string

record CachedCommandMcpDetails =
  cached_id :: string
  originalName :: string
  cached_description :: string

text \<open>
  The host application, over a state \<open>'w\<close> of its own (vault, workspace, plugin data):
  the command palette, \<open>executeCommandById\<close> (it returns a boolean or throws), the three
  vault tools \<open>readFile\<close>, \<open>writeFile\<close> and \<open>searchNotes\<close>, which work on the vault and
  catch what the vault throws, and the writing of the cache file.
\<close>

record 'w Host =
  listCommands :: "'w \<Rightarrow> Command list"
  executeCommandById :: "string \<Rightarrow> 'w \<Rightarrow> (Exn + bool) \<times> 'w"
  readFile :: "json option \<Rightarrow> 'w \<Rightarrow> McpToolCallResult \<times> 'w"
  writeFile :: "json option \<Rightarrow> json option \<Rightarrow> 'w \<Rightarrow> McpToolCallResult \<times> 'w"
  searchNotes :: "json option \<Rightarrow> json option \<Rightarrow> 'w \<Rightarrow> McpToolCallResult \<times> 'w"
  saveCommandMcpCacheToFile :: "(string \<Rightarrow> CachedCommandMcpDetails option) \<Rightarrow> 'w \<Rightarrow> 'w"

record LocalToolService =
  localTools :: "McpTool list"
  commandMcpCache :: "string \<Rightarrow> CachedCommandMcpDetails option"

definition text_result_of :: "bool \<Rightarrow> string \<Rightarrow> McpToolCallResult" where
  "text_result_of err t = \<lparr>isError = err, result_content = [t]\<rparr>"

text \<open>
  \<open>LocalToolService.executeTool\<close>. The command palette is searched first; only a name
  that is no command identifier reaches the \<open>switch\<close> over the built-in tools. After a
  command ran, its cache entry is rewritten from the tool definition and saved.
\<close>

definition executeTool ::
  "'w Host \<Rightarrow> LocalToolService \<Rightarrow> string \<Rightarrow> json \<Rightarrow> 'w
     \<Rightarrow> McpToolCallResult \<times> LocalToolService \<times> 'w" where
  "executeTool host service toolName args w =
     (case find (\<lambda>cmd. command_id cmd = toolName) (listCommands host w) of
        Some obsidianCommand \<Rightarrow>
          (case executeCommandById host toolName w of
             (outcome, w1) \<Rightarrow>
               (let result =
                      (case outcome of
                         Inr b \<Rightarrow>
                           text_result_of False
                             (''Successfully executed Obsidian command: ''
                              @ command_name obsidianCommand)
                       | Inl e \<Rightarrow>
                           text_result_of True
                             (''Error executing Obsidian command '' @ quoted toolName @ '': ''
                              @ template (exn_message e)))
                in case find (\<lambda>t. tool_name t = toolName) (localTools service) of
                     Some toolDefinition \<Rightarrow>
                       (let cache = (commandMcpCache service)
                              (toolName \<mapsto>
                                 \<lparr>cached_id = toolName,
                                  originalName = command_name obsidianCommand,
                                  cached_description =
                                    (if tool_description toolDefinition = []
                                     then ''Obsidian Command: '' @ command_name obsidianCommand
                                     else tool_description toolDefinition)\<rparr>)
                        in (result, service\<lparr>commandMcpCache := cache\<rparr>,
                            saveCommandMcpCacheToFile host cache w1))
                   | None \<Rightarrow> (result, service, w1)))
      | None \<Rightarrow>
          if toolName = ''obsidian_readFile'' then
            (case readFile host (member args ''path'') w of (r, w1) \<Rightarrow> (r, service, w1))
          else if toolName = ''obsidian_writeFile'' then
            (case writeFile host (member args ''path'') (member args ''content'') w of
               (r, w1) \<Rightarrow> (r, service, w1))
          else if toolName = ''obsidian_searchNotes'' then
            (case searchNotes host (member args ''query'') (member args ''max_results'') w of
               (r, w1) \<Rightarrow> (r, service, w1))
          else
            (text_result_of True (''Local tool '' @ quoted toolName @ '' not found.''),
             service, w))"

section \<open>The turn orchestrator\<close>

text \<open>
  \<open>ObsigentPluginCore\<close> of the \<open>onUpdate\<close>/\<open>onToolCall\<close> generation. Its state is the
  transcript \<open>chatHistory\<close>, the tool service and the host's state; \<open>generations\<close> logs
  the transcript handed to each \<open>generateResponse\<close>. What the view draws is not part of
  the state; the view enters through \<open>startStreamingResponse\<close>, which yields an element
  or \<open>null\<close>.
\<close>

record 'w Core =
  chatHistory :: "OpenAIMessage list"
  localToolService :: LocalToolService
  world :: 'w
  generations :: "OpenAIMessage list list"

record 'w Env =
  host :: "'w Host"
  parse_arguments :: "string \<Rightarrow> json option"
  startStreamingResponse :: bool
  activeLLMProvider :: "OnToolCall \<Rightarrow> OpenAIMessage list \<Rightarrow> CallbackEvent list"

definition message :: "Role \<Rightarrow> string \<Rightarrow> OpenAIMessage" where
  "message r text = \<lparr>role = r, content = Some text, tool_calls = None, tool_call_id = None\<rparr>"

definition tool_message :: "string \<Rightarrow> string \<Rightarrow> OpenAIMessage" where
  "tool_message call_id text =
     \<lparr>role = Tool, content = Some text, tool_calls = None, tool_call_id = Some call_id\<rparr>"

definition push :: "OpenAIMessage list \<Rightarrow> 'w Core \<Rightarrow> 'w Core" where
  "push msgs core = core\<lparr>chatHistory := chatHistory core @ msgs\<rparr>"

text \<open>\<open>result.content.map(c => c.text).join("\n")\<close>.\<close>

fun join_lines :: "string list \<Rightarrow> string" where
  "join_lines [] = []"
| "join_lines [t] = t"
| "join_lines (t # u # ts) = t @ [NL] @ join_lines (u # ts)"

text \<open>
  The body of the \<open>for\<close> loop of \<open>onToolCall\<close> for one call, after its arguments parsed:
  the tool-role message it adds to \<open>toolResultMessages\<close>.
\<close>

definition run_tool_call ::
  "'w Env \<Rightarrow> ToolCall \<Rightarrow> json \<Rightarrow> LocalToolService \<Rightarrow> 'w
     \<Rightarrow> OpenAIMessage \<times> LocalToolService \<times> 'w" where
  "run_tool_call env toolCall toolArgs service w =
     (case find (\<lambda>t. tool_name t = tc_name toolCall) (localTools service) of
        Some localTool \<Rightarrow>
          (case executeTool (host env) service (tc_name toolCall) toolArgs w of
             (result, service', w') \<Rightarrow>
               (let joined = join_lines (result_content result);
                    resultContentString = (if isError result then ''Error: '' @ joined else joined)
                in (tool_message (tc_id toolCall) resultContentString, service', w')))
      | None \<Rightarrow>
          (tool_message (tc_id toolCall)
             (''Error: '' @ ''Tool '' @ quoted (tc_name toolCall)
              @ '' is not a recognized local or Obsidian command.''),
           service, w))"

text \<open>
  The \<open>for\<close> loop. \<open>JSON.parse\<close> of a call's arguments is not inside a \<open>try\<close>: when it
  throws, the loop and \<open>onToolCall\<close> end there (\<open>Inl\<close>), with the tools run so far having
  had their effect on the host.
\<close>

fun run_tool_calls ::
  "'w Env \<Rightarrow> ToolCall list \<Rightarrow> LocalToolService \<Rightarrow> 'w
     \<Rightarrow> (LocalToolService \<times> 'w) + (OpenAIMessage list \<times> LocalToolService \<times> 'w)" where
  "run_tool_calls env [] service w = Inr ([], service, w)"
| "run_tool_calls env (toolCall # toolCalls) service w =
     (case parse_arguments env (tc_arguments toolCall) of
        None \<Rightarrow> Inl (service, w)
      | Some toolArgs \<Rightarrow>
          (case run_tool_call env toolCall toolArgs service w of
             (msg, service', w') \<Rightarrow>
               (case run_tool_calls env toolCalls service' w' of
                  Inl failed \<Rightarrow> Inl failed
                | Inr (msgs, service'', w'') \<Rightarrow> Inr (msg # msgs, service'', w''))))"

text \<open>\<open>onUpdate\<close> of both callback objects: only a final chunk reaches the transcript.\<close>

definition onUpdate :: "string \<Rightarrow> bool \<Rightarrow> 'w Core \<Rightarrow> 'w Core" where
  "onUpdate chunk isFinal core = (if isFinal then push [message Assistant chunk] core else core)"

text \<open>
  The callbacks of \<open>continueGenerationWithTools\<close>, applied to the adapter's trace. There
  is no \<open>onToolCall\<close>; \<open>onFinish\<close> and \<open>onError\<close> only tell the view. The interface has
  no \<open>onContent\<close>.
\<close>

fun continued_callbacks :: "CallbackEvent list \<Rightarrow> 'w Core \<Rightarrow> 'w Core" where
  "continued_callbacks [] core = core"
| "continued_callbacks (OnUpdate chunk isFinal # evs) core =
     continued_callbacks evs (onUpdate chunk isFinal core)"
| "continued_callbacks (ev # evs) core = continued_callbacks evs core"

definition continueGenerationWithTools :: "'w Env \<Rightarrow> 'w Core \<Rightarrow> 'w Core" where
  "continueGenerationWithTools env core =
     (if startStreamingResponse env then
        continued_callbacks (activeLLMProvider env None (chatHistory core))
          (core\<lparr>generations := generations core @ [chatHistory core]\<rparr>)
      else
        push [message Assistant
                (''Error: '' @ ''Could not create streaming message element for continued generation.'')]
          core)"

text \<open>
  \<open>onToolCall\<close>: the flag tells whether it returns (\<open>True\<close>) or throws. An empty batch
  returns at once. Otherwise the tool messages are pushed after the loop and the
  follow-up generation is started; when the loop throws, nothing is pushed.
\<close>

definition onToolCall :: "'w Env \<Rightarrow> ToolCall list \<Rightarrow> 'w Core \<Rightarrow> bool \<times> 'w Core" where
  "onToolCall env toolCalls core =
     (if toolCalls = [] then (True, core)
      else (case run_tool_calls env toolCalls (localToolService core) (world core) of
              Inl (service, w) \<Rightarrow>
                (False, core\<lparr>localToolService := service, world := w\<rparr>)
            | Inr (toolResultMessages, service, w) \<Rightarrow>
                (True, continueGenerationWithTools env
                         (push toolResultMessages
                            (core\<lparr>localToolService := service, world := w\<rparr>)))))"

text \<open>Whether the awaited \<open>onToolCall\<close> returns, which is what the adapter sees of it.\<close>

definition onToolCall_returns :: "'w Env \<Rightarrow> ToolCall list \<Rightarrow> bool" where
  "onToolCall_returns env toolCalls =
     list_all (\<lambda>toolCall. parse_arguments env (tc_arguments toolCall) \<noteq> None) toolCalls"

text \<open>
  The callbacks of \<open>handleUserMessage\<close>, applied to the adapter's trace. \<open>onFinish\<close> and
  \<open>onError\<close> only tell the view. \<open>onToolCall\<close> starts \<open>continueGenerationWithTools\<close> without
  awaiting it; the adapter has only \<open>onFinish\<close> left to call after \<open>onToolCall\<close>, which
  does not touch the transcript, so the follow-up is run here where it is started.
\<close>

fun callbacks :: "'w Env \<Rightarrow> CallbackEvent list \<Rightarrow> 'w Core \<Rightarrow> 'w Core" where
  "callbacks env [] core = core"
| "callbacks env (OnUpdate chunk isFinal # evs) core =
     callbacks env evs (onUpdate chunk isFinal core)"
| "callbacks env (OnToolCall toolCalls # evs) core =
     callbacks env evs (snd (onToolCall env toolCalls core))"
| "callbacks env (ev # evs) core = callbacks env evs core"

definition handleUserMessage :: "'w Env \<Rightarrow> string \<Rightarrow> 'w Core \<Rightarrow> 'w Core" where
  "handleUserMessage env messageText core =
     (let core1 = push [message User messageText] core
      in if startStreamingResponse env then
           callbacks env
             (activeLLMProvider env (Some (onToolCall_returns env)) (chatHistory core1))
             (core1\<lparr>generations := generations core1 @ [chatHistory core1]\<rparr>)
         else
           push [message Assistant (''Error: '' @ ''Could not create streaming message element.'')]
             core1)"

subsection \<open>The earlier generation\<close>

text \<open>
  \<open>processLlmTurn\<close> of the \<open>onContent\<close>/\<open>onToolCallsDone\<close> generation of the orchestrator,
  for its first turn. It resets \<open>accumulatedContent\<close> and \<open>currentToolCalls\<close> and hands a
  copy of the transcript to the provider. \<open>onContent\<close> appends the chunk to
  \<open>accumulatedContent\<close>, unless the message element is missing; \<open>onFinish\<close> pushes the
  accumulated text as the assistant entry when the reason is \<open>stop\<close> and there are no
  current tool calls; \<open>onError\<close> only tells the view. No adapter calls
  \<open>onToolCallsDone\<close>, so \<open>currentToolCalls\<close> stays empty during the turn. The state of the
  fold is \<open>accumulatedContent\<close> and the transcript.
\<close>

fun earlier_callbacks ::
  "bool \<Rightarrow> CallbackEvent list \<Rightarrow> string \<times> OpenAIMessage list \<Rightarrow> string \<times> OpenAIMessage list" where
  "earlier_callbacks aiMessageContentEl [] state = state"
| "earlier_callbacks aiMessageContentEl (OnContent contentChunk isFinal # evs) (accumulatedContent, history) =
     earlier_callbacks aiMessageContentEl evs
       (if aiMessageContentEl then accumulatedContent @ contentChunk else accumulatedContent, history)"
| "earlier_callbacks aiMessageContentEl (OnFinish reason # evs) (accumulatedContent, history) =
     earlier_callbacks aiMessageContentEl evs
       (accumulatedContent,
        if reason = ''stop'' then history @ [message Assistant accumulatedContent] else history)"
| "earlier_callbacks aiMessageContentEl (ev # evs) state =
     earlier_callbacks aiMessageContentEl evs state"

definition processLlmTurn ::
  "bool \<Rightarrow> (OpenAIMessage list \<Rightarrow> CallbackEvent list) \<Rightarrow> OpenAIMessage list
     \<Rightarrow> OpenAIMessage list" where
  "processLlmTurn aiMessageContentEl provider history =
     snd (earlier_callbacks aiMessageContentEl (provider history) ([], history))"

section \<open>Notions used to state the properties\<close>

text \<open>The slot of one index, followed through a sequence of fragments for that index.\<close>

definition slot_step :: "ToolCall option \<Rightarrow> ToolCallChunk \<Rightarrow> ToolCall option" where
  "slot_step s c = Some (apply_chunk c (case s of None \<Rightarrow> fresh_tool_call | Some r \<Rightarrow> r))"

text \<open>The values of one field that a sequence of fragments carries (the truthy ones).\<close>

definition carried :: "(ToolCallChunk \<Rightarrow> string option) \<Rightarrow> ToolCallChunk list \<Rightarrow> string list" where
  "carried field cs = List.map_filter (\<lambda>c. truthy_value (field c)) cs"

text \<open>The predicate of the \<open>filter\<close> on a slot.\<close>

definition kept :: "ToolCall option \<Rightarrow> ToolCall option" where
  "kept slot = (case slot of None \<Rightarrow> None | Some tc \<Rightarrow> if complete tc then Some tc else None)"

text \<open>The fragments of one frame: \<open>parsed.choices[0].delta.tool_calls\<close>, if there.\<close>

definition frame_fragments :: "StreamChunk \<Rightarrow> ToolCallChunk list" where
  "frame_fragments parsed =
     (case choices parsed of
        Some (choice # _) \<Rightarrow>
          (case delta choice of
             Some d \<Rightarrow> (case delta_tool_calls d of Some tcs \<Rightarrow> tcs | None \<Rightarrow> [])
           | None \<Rightarrow> [])
      | _ \<Rightarrow> [])"

text \<open>
  What the adapter reads from the payload of a \<open>data:\<close> frame: nothing from the \<open>[DONE]\<close>
  sentinel and from text that is no JSON; otherwise the content and the finish reason of
  the first choice, when they are truthy, and the content update the frame gives rise to.
\<close>

definition payload_frame :: "(string \<Rightarrow> StreamChunk option) \<Rightarrow> string \<Rightarrow> StreamChunk option" where
  "payload_frame parse payload = (if trim payload = ''[DONE]'' then None else parse payload)"

definition frame_text :: "StreamChunk \<Rightarrow> string option" where
  "frame_text parsed =
     (case choices parsed of
        Some (choice # _) \<Rightarrow>
          (case delta choice of Some d \<Rightarrow> truthy_value (delta_content d) | None \<Rightarrow> None)
      | _ \<Rightarrow> None)"

definition frame_reason :: "StreamChunk \<Rightarrow> string option" where
  "frame_reason parsed =
     (case choices parsed of
        Some (choice # _) \<Rightarrow> truthy_value (finish_reason choice)
      | _ \<Rightarrow> None)"

definition payload_updates :: "(string \<Rightarrow> StreamChunk option) \<Rightarrow> string \<Rightarrow> CallbackEvent list" where
  "payload_updates parse payload =
     (case payload_frame parse payload of
        None \<Rightarrow> []
      | Some parsed \<Rightarrow> (case frame_text parsed of None \<Rightarrow> [] | Some t \<Rightarrow> [OnUpdate t False]))"

definition payload_reason :: "(string \<Rightarrow> StreamChunk option) \<Rightarrow> string \<Rightarrow> string option" where
  "payload_reason parse payload =
     (case payload_frame parse payload of None \<Rightarrow> None | Some parsed \<Rightarrow> frame_reason parsed)"

text \<open>How the loop ends when the reader ends.\<close>

definition end_completion :: "ReadEnd \<Rightarrow> Completion" where
  "end_completion e = (case e of EndOfStream \<Rightarrow> Normal | ReadRejected x \<Rightarrow> Throws x)"

text \<open>
  The endpoint and the model that the settings supply to an adapter: the provider's own
  entry and, for the OpenAI-compatible adapter only, the global setting behind it.
\<close>

definition settings_of :: "ObsigentPluginSettings \<Rightarrow> LLMProviderType \<Rightarrow> ProviderSettings" where
  "settings_of settings p = (case providerSettings settings p of None \<Rightarrow> no_settings | Some ps \<Rightarrow> ps)"

definition configured_endpoint :: "Adapter \<Rightarrow> ObsigentPluginSettings \<Rightarrow> string option" where
  "configured_endpoint adapter settings =
     (case adapter of
        OpenAIAdapter \<Rightarrow> js_or (apiEndpoint (settings_of settings openai)) (settings_apiEndpoint settings)
      | OllamaAdapter \<Rightarrow> apiEndpoint (settings_of settings ollama)
      | AnthropicAdapter \<Rightarrow> apiEndpoint (settings_of settings anthropic))"

definition configured_model :: "Adapter \<Rightarrow> ObsigentPluginSettings \<Rightarrow> string option" where
  "configured_model adapter settings =
     (case adapter of
        OpenAIAdapter \<Rightarrow> js_or (defaultModel (settings_of settings openai)) (settings_defaultModel settings)
      | OllamaAdapter \<Rightarrow> defaultModel (settings_of settings ollama)
      | AnthropicAdapter \<Rightarrow> defaultModel (settings_of settings anthropic))"

text \<open>The names of the three built-in tools.\<close>

definition builtin_tools :: "string list" where
  "builtin_tools = [''obsidian_readFile'', ''obsidian_writeFile'', ''obsidian_searchNotes'']"

section \<open>Concrete inputs\<close>

subsection \<open>Settings and network\<close>

definition configured_settings :: ObsigentPluginSettings where
  "configured_settings =
     \<lparr>settings_apiKey = [], settings_defaultModel = None, settings_apiEndpoint = None,
      selectedProvider = openai,
      providerSettings = (\<lambda>p. case p of
          openai \<Rightarrow> Some \<lparr>apiKey = Some [], apiEndpoint = Some ''http://localhost:1234/v1/chat/completions'',
                          defaultModel = Some ''gpt-3.5-turbo'', temperature = None, max_tokens = None\<rparr>
        | anthropic \<Rightarrow> Some \<lparr>apiKey = Some ''sk-test'', apiEndpoint = Some ''https://api.anthropic.com'',
                             defaultModel = Some ''claude-3-haiku-20240307'', temperature = None,
                             max_tokens = None\<rparr>
        | ollama \<Rightarrow> Some \<lparr>apiKey = None, apiEndpoint = Some ''http://localhost:11434/api/chat'',
                          defaultModel = Some ''llama3'', temperature = None, max_tokens = None\<rparr>
        | _ \<Rightarrow> None)\<rparr>"

text \<open>Settings in which no endpoint and no model is set anywhere; Anthropic has its key.\<close>

definition bare_settings :: ObsigentPluginSettings where
  "bare_settings =
     \<lparr>settings_apiKey = [], settings_defaultModel = None, settings_apiEndpoint = None,
      selectedProvider = anthropic,
      providerSettings = (\<lambda>p. case p of
          anthropic \<Rightarrow> Some \<lparr>apiKey = Some ''sk-test'', apiEndpoint = None, defaultModel = None,
                             temperature = None, max_tokens = None\<rparr>
        | _ \<Rightarrow> None)\<rparr>"

definition no_parsers :: Parsers where
  "no_parsers = \<lparr>parse_openai = (\<lambda>s. None), parse_ollama = (\<lambda>s. None),
                  parse_anthropic = (\<lambda>s. None)\<rparr>"

definition abort_error :: Exn where
  "abort_error = \<lparr>exn_name = ''AbortError'', exn_message = Some ''The user aborted a request.''\<rparr>"

definition aborting_fetch :: "Request \<Rightarrow> FetchResult" where
  "aborting_fetch request = Rejected abort_error"

definition streaming_fetch :: "string list \<Rightarrow> Request \<Rightarrow> FetchResult" where
  "streaming_fetch pieces request =
     Resolved \<lparr>ok = True, status = 200, json_result = None, text_result = Inr [],
               body = Some (pieces, EndOfStream)\<rparr>"

subsection \<open>Stream frames\<close>

definition sse :: "string \<Rightarrow> string" where
  "sse payload = ''data: '' @ payload @ [NL, NL]"

definition hi_json :: string where
  \<open>hi_json = ''{"choices":[{"delta":{"content":"Hi"}}]}''\<close>

definition there_json :: string where
  \<open>there_json = ''{"choices":[{"delta":{"content":" there"}}]}''\<close>

definition stop_json :: string where
  \<open>stop_json = ''{"choices":[{"delta":{},"finish_reason":"stop"}]}''\<close>

definition content_chunk :: "string \<Rightarrow> StreamChunk" where
  "content_chunk t =
     \<lparr>choices = Some [\<lparr>delta = Some \<lparr>delta_content = Some t, delta_tool_calls = None\<rparr>,
                       finish_reason = None\<rparr>]\<rparr>"

definition finish_chunk :: "string \<Rightarrow> StreamChunk" where
  "finish_chunk reason =
     \<lparr>choices = Some [\<lparr>delta = Some \<lparr>delta_content = None, delta_tool_calls = None\<rparr>,
                       finish_reason = Some reason\<rparr>]\<rparr>"

text \<open>\<open>JSON.parse\<close> on the three frames above; any other text is no JSON here.\<close>

definition scenario_parse :: "string \<Rightarrow> StreamChunk option" where
  "scenario_parse s =
     (if s = hi_json then Some (content_chunk ''Hi'')
      else if s = there_json then Some (content_chunk '' there'')
      else if s = stop_json then Some (finish_chunk ''stop'')
      else None)"

text \<open>The same reply as newline-delimited JSON, as the Ollama backend sends it.\<close>

definition hi_line :: string where
  \<open>hi_line = ''{"message":{"role":"assistant","content":"Hi"},"done":false}''\<close>

definition there_line :: string where
  \<open>there_line = ''{"message":{"role":"assistant","content":" there"},"done":false}''\<close>

definition done_line :: string where
  \<open>done_line = ''{"message":{"role":"assistant","content":""},"done":true}''\<close>

definition scenario_parse_ollama :: "string \<Rightarrow> OllamaChatStreamResponse option" where
  "scenario_parse_ollama s =
     (if s = hi_line
      then Some \<lparr>message_content = Some ''Hi'', response_done = False, stream_error = None\<rparr>
      else if s = there_line
      then Some \<lparr>message_content = Some '' there'', response_done = False, stream_error = None\<rparr>
      else if s = done_line
      then Some \<lparr>message_content = Some [], response_done = True, stream_error = None\<rparr>
      else None)"

subsection \<open>Tool-call fragments\<close>

definition fragment ::
  "nat \<Rightarrow> string option \<Rightarrow> string option \<Rightarrow> string option \<Rightarrow> ToolCallChunk" where
  "fragment i ident name args =
     \<lparr>tcc_index = i, tcc_id = ident, tcc_type = None, tcc_name = name, tcc_arguments = args\<rparr>"

definition read_1 :: ToolCallChunk where
  \<open>read_1 = fragment 0 (Some ''call_0'') (Some ''obsidian_readFile'') (Some ''{"path":'')\<close>

definition read_2 :: ToolCallChunk where
  \<open>read_2 = fragment 0 None None (Some ''"a.md"}'')\<close>

definition search_1 :: ToolCallChunk where
  \<open>search_1 = fragment 1 (Some ''call_1'') (Some ''obsidian_searchNotes'') (Some ''{"query":"x"}'')\<close>

definition reissued_id :: ToolCallChunk where
  "reissued_id = fragment 0 (Some ''call_9'') None None"

definition tool_calls_choice :: Choice where
  "tool_calls_choice =
     \<lparr>delta = Some \<lparr>delta_content = None,
                     delta_tool_calls = Some [fragment 2 (Some ''call_2'') None None]\<rparr>,
      finish_reason = Some ''tool_calls''\<rparr>"

definition tool_calls_chunk :: StreamChunk where
  "tool_calls_chunk = \<lparr>choices = Some [tool_calls_choice]\<rparr>"

subsection \<open>Host, tools and tool calls\<close>

text \<open>
  A host whose state is the list of the commands executed so far. Its palette holds one
  command, whose identifier is the name of a built-in tool.
\<close>

definition shadowing_host :: "string list Host" where
  "shadowing_host =
     \<lparr>listCommands = (\<lambda>w. [\<lparr>command_id = ''obsidian_readFile'', command_name = ''Read aloud''\<rparr>]),
      executeCommandById = (\<lambda>ident w. (Inr False, w @ [ident])),
      readFile = (\<lambda>path w. (text_result_of False ''# Note'', w)),
      writeFile = (\<lambda>path text w. (text_result_of False ''Successfully wrote to file: a.md'', w)),
      searchNotes = (\<lambda>query limit w. (text_result_of False ''[]'', w)),
      saveCommandMcpCacheToFile = (\<lambda>cache w. w)\<rparr>"

text \<open>
  A host with one command, \<open>editor:save-file\<close>, and a vault that holds one note; reading
  the note is logged in the state as well.
\<close>

definition plain_host :: "string list Host" where
  "plain_host =
     \<lparr>listCommands = (\<lambda>w. [\<lparr>command_id = ''editor:save-file'', command_name = ''Save current file''\<rparr>]),
      executeCommandById = (\<lambda>ident w. (Inr True, w @ [ident])),
      readFile = (\<lambda>path w. (text_result_of False ''# Note'', w @ [''vault.read''])),
      writeFile = (\<lambda>path text w. (text_result_of False ''Successfully wrote to file: a.md'', w)),
      searchNotes = (\<lambda>query limit w. (text_result_of False ''[]'', w)),
      saveCommandMcpCacheToFile = (\<lambda>cache w. w)\<rparr>"

definition registered_service :: LocalToolService where
  "registered_service =
     \<lparr>localTools =
        [\<lparr>tool_name = ''obsidian_readFile'', tool_description = ''Reads a file.''\<rparr>,
         \<lparr>tool_name = ''obsidian_writeFile'', tool_description = ''Writes a file.''\<rparr>,
         \<lparr>tool_name = ''obsidian_searchNotes'', tool_description = ''Searches notes.''\<rparr>,
         \<lparr>tool_name = ''editor:save-file'', tool_description = ''Saves the current file.''\<rparr>],
      commandMcpCache = (\<lambda>ident. None)\<rparr>"

definition path_json :: string where
  \<open>path_json = ''{"path":"a.md"}''\<close>

definition cut_json :: string where
  \<open>cut_json = ''{"path":''\<close>

text \<open>\<open>JSON.parse\<close> on the argument texts used below; \<open>cut_json\<close> is no JSON.\<close>

definition scenario_arguments :: "string \<Rightarrow> json option" where
  "scenario_arguments s =
     (if s = path_json then Some (JObj [(''path'', JStr ''a.md'')])
      else if s = ''{}'' then Some (JObj [])
      else None)"

definition call :: "string \<Rightarrow> string \<Rightarrow> string \<Rightarrow> ToolCall" where
  "call ident name args =
     \<lparr>tc_id = ident, tc_type = ''function'', tc_name = name, tc_arguments = args\<rparr>"

definition scenario_core :: "string list Core" where
  "scenario_core =
     \<lparr>chatHistory = [message System ''You are a helpful assistant integrated into Obsidian.''],
      localToolService = registered_service, world = [], generations = []\<rparr>"

text \<open>
  An environment whose provider is the OpenAI-compatible adapter, with the settings of
  \<open>configured_settings\<close>, reading the given stream on every request.
\<close>

definition scenario_env :: "string list \<Rightarrow> string list Env" where
  "scenario_env pieces =
     \<lparr>host = plain_host,
      parse_arguments = scenario_arguments,
      startStreamingResponse = True,
      activeLLMProvider = (\<lambda>onToolCall messages.
        events (OpenAIProvider_generateResponse scenario_parse (streaming_fetch pieces)
                  messages configured_settings onToolCall))\<rparr>"

section \<open>The accumulator\<close>

lemma arr_get_arr_set: "arr_get (arr_set xs i v) j = (if j = i then Some v else arr_get xs j)"
  by (auto simp: arr_get_def arr_set_def nth_append)

lemma length_arr_set: "length (arr_set xs i v) = max (length xs) (Suc i)"
  by (auto simp: arr_set_def)

lemma arr_ext:
  assumes len: "length xs = length ys" and slots: "\<And>i. arr_get xs i = arr_get ys i"
  shows "xs = ys"
proof (rule nth_equalityI)
  show "length xs = length ys"
    by (rule len)
next
  fix i
  assume "i < length xs"
  with len slots [of i] show "xs ! i = ys ! i"
    by (simp add: arr_get_def)
qed

lemma arr_get_accumulate:
  "arr_get (accumulate acc c) j =
     (if j = tcc_index c then slot_step (arr_get acc j) c else arr_get acc j)"
  by (simp add: accumulate_def Let_def arr_get_arr_set slot_step_def)

lemma length_accumulate: "length (accumulate acc c) = max (length acc) (Suc (tcc_index c))"
  by (simp add: accumulate_def Let_def length_arr_set)

text \<open>A slot only sees the fragments of its own index.\<close>

lemma arr_get_foldl_accumulate:
  "arr_get (foldl accumulate acc fs) i =
     foldl slot_step (arr_get acc i) (filter (\<lambda>c. tcc_index c = i) fs)"
  by (induction fs arbitrary: acc) (simp_all add: arr_get_accumulate)

text \<open>The array is as long as the largest index seen requires.\<close>

lemma length_foldl_accumulate:
  "length (foldl accumulate acc fs) =
     Max (insert (length acc) ((\<lambda>c. Suc (tcc_index c)) ` set fs))"
proof (induction fs arbitrary: acc)
  case Nil
  then show ?case by simp
next
  case (Cons c fs)
  let ?S = "(\<lambda>c. Suc (tcc_index c)) ` set fs"
  have step: "Max (insert (max (length acc) (Suc (tcc_index c))) ?S)
      = Max (insert (length acc) (insert (Suc (tcc_index c)) ?S))"
  proof (cases "?S = {}")
    case True
    then show ?thesis by simp
  next
    case False
    have fin: "finite ?S" by simp
    have "Max (insert (max (length acc) (Suc (tcc_index c))) ?S)
            = max (max (length acc) (Suc (tcc_index c))) (Max ?S)"
      using fin False by (rule Max_insert)
    moreover have "Max (insert (Suc (tcc_index c)) ?S) = max (Suc (tcc_index c)) (Max ?S)"
      using fin False by (rule Max_insert)
    moreover have "Max (insert (length acc) (insert (Suc (tcc_index c)) ?S))
            = max (length acc) (Max (insert (Suc (tcc_index c)) ?S))"
      by (rule Max_insert) (use fin in simp_all)
    ultimately show ?thesis
      by (simp only: max.assoc)
  qed
  have "length (foldl accumulate acc (c # fs))
          = Max (insert (max (length acc) (Suc (tcc_index c))) ?S)"
    using Cons [of "accumulate acc c"] by (simp only: foldl_Cons length_accumulate)
  also note step
  also have "insert (length acc) (insert (Suc (tcc_index c)) ?S)
               = insert (length acc) ((\<lambda>c. Suc (tcc_index c)) ` set (c # fs))"
    by simp
  finally show ?case .
qed

lemma index_seen:
  "i \<in> tcc_index ` set xs \<longleftrightarrow> filter (\<lambda>c. tcc_index c = i) xs \<noteq> []"
  by (auto simp: filter_empty_conv)

lemma same_indices:
  assumes "\<And>i. filter (\<lambda>c. tcc_index c = i) fs = filter (\<lambda>c. tcc_index c = i) gs"
  shows "tcc_index ` set fs = tcc_index ` set gs"
proof (rule set_eqI)
  fix i
  show "i \<in> tcc_index ` set fs \<longleftrightarrow> i \<in> tcc_index ` set gs"
    by (simp only: index_seen assms)
qed

lemma accumulate_same_subsequences:
  assumes "\<And>i. filter (\<lambda>c. tcc_index c = i) fs = filter (\<lambda>c. tcc_index c = i) gs"
  shows "foldl accumulate acc fs = foldl accumulate acc gs"
proof (rule arr_ext)
  have "Suc ` (tcc_index ` set fs) = Suc ` (tcc_index ` set gs)"
    by (simp only: same_indices [OF assms])
  then have "(\<lambda>c. Suc (tcc_index c)) ` set fs = (\<lambda>c. Suc (tcc_index c)) ` set gs"
    by (simp only: image_image)
  then show "length (foldl accumulate acc fs) = length (foldl accumulate acc gs)"
    by (simp only: length_foldl_accumulate)
next
  fix i
  show "arr_get (foldl accumulate acc fs) i = arr_get (foldl accumulate acc gs) i"
    by (simp add: arr_get_foldl_accumulate assms)
qed

text \<open>
  Claim C2. Let \<open>fs\<close> hold the fragment sequences, one per index, and let \<open>gs\<close> deliver
  the same fragments in any interleaving that keeps, for each index, the order of that
  index's fragments. Then the accumulator after \<open>gs\<close> is the accumulator after the
  delivery in index order (\<open>sort_key tcc_index fs\<close>, a stable sort: all of index 0 first,
  then all of index 1, and so on). And a fragment for an index whose slot is empty starts
  from the record whose \<open>id\<close>, \<open>name\<close> and \<open>arguments\<close> are the empty string.
\<close>

theorem accumulator_order_independent:
  "((\<forall>i. filter (\<lambda>c. tcc_index c = i) gs = filter (\<lambda>c. tcc_index c = i) fs)
      \<longrightarrow> foldl accumulate acc gs = foldl accumulate acc (sort_key tcc_index fs))
   \<and> (arr_get acc (tcc_index c) = None
      \<longrightarrow> arr_get (accumulate acc c) (tcc_index c)
            = Some (apply_chunk c
                \<lparr>tc_id = [], tc_type = ''function'', tc_name = [], tc_arguments = []\<rparr>))"
proof (intro conjI impI)
  assume same: "\<forall>i. filter (\<lambda>c. tcc_index c = i) gs = filter (\<lambda>c. tcc_index c = i) fs"
  have "filter (\<lambda>c. tcc_index c = i) gs
          = filter (\<lambda>c. tcc_index c = i) (sort_key tcc_index fs)" for i
    using same by (simp add: sort_key_stable)
  then show "foldl accumulate acc gs = foldl accumulate acc (sort_key tcc_index fs)"
    by (rule accumulate_same_subsequences)
next
  assume "arr_get acc (tcc_index c) = None"
  then show "arr_get (accumulate acc c) (tcc_index c)
      = Some (apply_chunk c \<lparr>tc_id = [], tc_type = ''function'', tc_name = [], tc_arguments = []\<rparr>)"
    by (simp add: arr_get_accumulate slot_step_def fresh_tool_call_def)
qed

text \<open>
  The theorem at the fragments of two calls: the second call's fragment arrives between
  the two fragments of the first.
\<close>

theorem accumulator_order_independent_witness:
  "foldl accumulate [] [read_1, search_1, read_2]
     = foldl accumulate [] (sort_key tcc_index [read_1, read_2, search_1])
   \<and> arr_get (accumulate [] search_1) 1
     = Some (apply_chunk search_1
         \<lparr>tc_id = [], tc_type = ''function'', tc_name = [], tc_arguments = []\<rparr>)"
proof -
  have "\<forall>i. filter (\<lambda>c. tcc_index c = i) [read_1, search_1, read_2]
            = filter (\<lambda>c. tcc_index c = i) [read_1, read_2, search_1]"
    by (simp add: read_1_def read_2_def search_1_def fragment_def)
  moreover have "arr_get ([] :: Accumulator) (tcc_index search_1) = None"
    by (simp add: arr_get_def)
  moreover have "tcc_index search_1 = 1"
    by (simp add: search_1_def fragment_def)
  ultimately show ?thesis
    using accumulator_order_independent
            [of "[read_1, search_1, read_2]" "[read_1, read_2, search_1]" "[]" search_1]
    by simp
qed

lemma when_truthy_value:
  "when_truthy v f r = (case truthy_value v of None \<Rightarrow> r | Some s \<Rightarrow> f s r)"
  by (simp add: when_truthy_def truthy_value_def split: option.splits)

lemma apply_chunk_fields:
  "tc_id (apply_chunk c r) = (case truthy_value (tcc_id c) of None \<Rightarrow> tc_id r | Some s \<Rightarrow> s)"
  "tc_type (apply_chunk c r) = (case truthy_value (tcc_type c) of None \<Rightarrow> tc_type r | Some s \<Rightarrow> s)"
  "tc_name (apply_chunk c r) =
     (case truthy_value (tcc_name c) of None \<Rightarrow> tc_name r | Some s \<Rightarrow> tc_name r @ s)"
  "tc_arguments (apply_chunk c r) =
     (case truthy_value (tcc_arguments c) of None \<Rightarrow> tc_arguments r
      | Some s \<Rightarrow> tc_arguments r @ s)"
  by (simp_all add: apply_chunk_def when_truthy_value split: option.splits)

lemma carried_snoc:
  "carried field (cs @ [c]) =
     carried field cs @ (case truthy_value (field c) of None \<Rightarrow> [] | Some s \<Rightarrow> [s])"
  by (simp add: carried_def map_filter_def split: option.splits)

lemma carried_Nil: "carried field [] = []"
  by (simp add: carried_def map_filter_def)

lemma foldl_apply_chunk_fields:
  "tc_id (foldl (\<lambda>r c. apply_chunk c r) r0 cs) =
     (if carried tcc_id cs = [] then tc_id r0 else last (carried tcc_id cs))"
  "tc_name (foldl (\<lambda>r c. apply_chunk c r) r0 cs) = tc_name r0 @ concat (carried tcc_name cs)"
  "tc_arguments (foldl (\<lambda>r c. apply_chunk c r) r0 cs) =
     tc_arguments r0 @ concat (carried tcc_arguments cs)"
  by (induction cs rule: rev_induct)
     (simp_all add: carried_Nil carried_snoc apply_chunk_fields split: option.splits)

lemma foldl_slot_step:
  "cs \<noteq> [] \<Longrightarrow>
   foldl slot_step s cs =
     Some (foldl (\<lambda>r c. apply_chunk c r)
             (case s of None \<Rightarrow> fresh_tool_call | Some r \<Rightarrow> r) cs)"
proof (induction cs rule: rev_induct)
  case Nil
  then show ?case by simp
next
  case (snoc c cs)
  then show ?case
    by (cases "cs = []") (simp_all add: slot_step_def)
qed

text \<open>
  Claim C10. For an index \<open>i\<close> that has fragments in \<open>fs\<close>, the record accumulated from
  the empty accumulator has as \<open>id\<close> the id of the last fragment of that index that
  carries one (the empty string if none does), while its name and its arguments are the
  concatenation, in arrival order, of what the fragments of that index carry.
\<close>

theorem id_overwritten_name_arguments_appended:
  "filter (\<lambda>c. tcc_index c = i) fs \<noteq> [] \<Longrightarrow>
   (\<exists>r. arr_get (foldl accumulate [] fs) i = Some r
      \<and> tc_id r = (if carried tcc_id (filter (\<lambda>c. tcc_index c = i) fs) = [] then []
                   else last (carried tcc_id (filter (\<lambda>c. tcc_index c = i) fs)))
      \<and> tc_name r = concat (carried tcc_name (filter (\<lambda>c. tcc_index c = i) fs))
      \<and> tc_arguments r = concat (carried tcc_arguments (filter (\<lambda>c. tcc_index c = i) fs)))"
proof -
  assume own: "filter (\<lambda>c. tcc_index c = i) fs \<noteq> []"
  let ?own = "filter (\<lambda>c. tcc_index c = i) fs"
  let ?r = "foldl (\<lambda>r c. apply_chunk c r) fresh_tool_call ?own"
  have "arr_get ([] :: Accumulator) i = None"
    by (simp add: arr_get_def)
  then have "arr_get (foldl accumulate [] fs) i = Some ?r"
    by (simp add: arr_get_foldl_accumulate foldl_slot_step [OF own])
  moreover have "tc_id ?r = (if carried tcc_id ?own = [] then [] else last (carried tcc_id ?own))"
    and "tc_name ?r = concat (carried tcc_name ?own)"
    and "tc_arguments ?r = concat (carried tcc_arguments ?own)"
    by (simp_all add: foldl_apply_chunk_fields fresh_tool_call_def)
  ultimately show ?thesis
    by blast
qed

text \<open>
  The theorem at index 0 of a stream in which a later fragment of that index carries a
  second id: the record ends with that id alone, and with the whole name and arguments.
\<close>

theorem id_overwritten_name_arguments_appended_witness:
  \<open>filter (\<lambda>c. tcc_index c = 0) [read_1, search_1, read_2, reissued_id] \<noteq> []
   \<and> (\<exists>r. arr_get (foldl accumulate [] [read_1, search_1, read_2, reissued_id]) 0 = Some r
        \<and> tc_id r = ''call_9''
        \<and> tc_name r = ''obsidian_readFile''
        \<and> tc_arguments r = ''{"path":"a.md"}'')\<close>
proof -
  have own: "filter (\<lambda>c. tcc_index c = 0) [read_1, search_1, read_2, reissued_id]
               = [read_1, read_2, reissued_id]"
    by (simp add: read_1_def read_2_def search_1_def reissued_id_def fragment_def)
  have "carried tcc_id [read_1, read_2, reissued_id] = [''call_0'', ''call_9'']"
    and "carried tcc_name [read_1, read_2, reissued_id] = [''obsidian_readFile'']"
    and \<open>carried tcc_arguments [read_1, read_2, reissued_id] = [''{"path":'', ''"a.md"}'']\<close>
    by (simp_all add: carried_def map_filter_def truthy_value_def read_1_def read_2_def
          reissued_id_def fragment_def)
  with own show ?thesis
    using id_overwritten_name_arguments_appended
            [of 0 "[read_1, search_1, read_2, reissued_id]"]
    by simp
qed

lemma map_filter_nth:
  "List.map_filter g xs =
     map (\<lambda>i. the (g (xs ! i))) (filter (\<lambda>i. g (xs ! i) \<noteq> None) [0..<length xs])"
proof -
  have "List.map_filter g (map ((!) xs) [0..<length xs]) =
     map (\<lambda>i. the (g (xs ! i))) (filter (\<lambda>i. g (xs ! i) \<noteq> None) [0..<length xs])"
    by (simp add: map_filter_def filter_map comp_def)
  then show ?thesis
    by (simp only: map_nth)
qed

text \<open>
  The batch of the \<open>filter\<close>: the slots at a strictly increasing list of indices, which
  are exactly the indices of the records with all three fields non-empty.
\<close>

lemma completed_calls_indices:
  "\<exists>is. sorted_wrt (<) is
      \<and> set is = {i. \<exists>tc. arr_get acc i = Some tc \<and> complete tc}
      \<and> map Some (completed_calls acc) = map (arr_get acc) is"
proof (intro exI conjI)
  let ?is = "filter (\<lambda>i. kept (acc ! i) \<noteq> None) [0..<length acc]"
  show "sorted_wrt (<) ?is"
    by (simp add: sorted_wrt_filter)
  show "set ?is = {i. \<exists>tc. arr_get acc i = Some tc \<and> complete tc}"
  proof (rule set_eqI)
    fix i
    show "i \<in> set ?is \<longleftrightarrow> i \<in> {i. \<exists>tc. arr_get acc i = Some tc \<and> complete tc}"
      by (cases "i < length acc")
         (auto simp: arr_get_def kept_def split: option.splits if_splits)
  qed
  have "completed_calls acc = List.map_filter kept acc"
    by (simp add: completed_calls_def kept_def [abs_def])
  then have "map Some (completed_calls acc) = map (\<lambda>i. Some (the (kept (acc ! i)))) ?is"
    by (simp add: map_filter_nth comp_def)
  also have "\<dots> = map (arr_get acc) ?is"
    by (rule map_cong)
       (auto simp: arr_get_def kept_def split: option.splits if_splits)
  finally show "map Some (completed_calls acc) = map (arr_get acc) ?is" .
qed

lemma process_parsed_tool_calls:
  assumes "choices parsed = Some (choice # others)"
    and "finish_reason choice = Some ''tool_calls''"
  shows "\<exists>ev. (ev = [] \<or> (\<exists>t. ev = [OnUpdate t False]))
     \<and> fst (process_parsed (Some returns) acc parsed)
         = ev @ OnToolCall (completed_calls (foldl accumulate acc (frame_fragments parsed)))
              # (if returns (completed_calls (foldl accumulate acc (frame_fragments parsed)))
                 then [OnFinish ''tool_calls''] else [])"
  using assms
  by (simp add: process_parsed_def frame_fragments_def truthy_value_def Let_def
        split: option.splits)

text \<open>
  Claim C3. On a frame whose \<open>finish_reason\<close> is \<open>tool_calls\<close>, with \<open>onToolCall\<close>
  present, the adapter calls \<open>onToolCall\<close> once, after at most one content update and
  before \<open>onFinish\<close>. The batch it passes reads the accumulator (as it is after the
  fragments of this frame) at a strictly increasing list of indices, and these indices
  are exactly those whose record has a non-empty id, name and arguments.
\<close>

theorem tool_call_batch_complete_ascending:
  "choices parsed = Some (choice # others) \<Longrightarrow>
   finish_reason choice = Some ''tool_calls'' \<Longrightarrow>
   (\<exists>ev batch is.
      (ev = [] \<or> (\<exists>t. ev = [OnUpdate t False]))
      \<and> fst (process_parsed (Some returns) acc parsed)
          = ev @ OnToolCall batch # (if returns batch then [OnFinish ''tool_calls''] else [])
      \<and> sorted_wrt (<) is
      \<and> set is = {i. \<exists>tc. arr_get (foldl accumulate acc (frame_fragments parsed)) i = Some tc
                        \<and> tc_id tc \<noteq> [] \<and> tc_name tc \<noteq> [] \<and> tc_arguments tc \<noteq> []}
      \<and> map Some batch = map (arr_get (foldl accumulate acc (frame_fragments parsed))) is)"
proof -
  assume first: "choices parsed = Some (choice # others)"
    and reason: "finish_reason choice = Some ''tool_calls''"
  let ?acc = "foldl accumulate acc (frame_fragments parsed)"
  from process_parsed_tool_calls [OF first reason, of returns acc]
  obtain ev where ev: "ev = [] \<or> (\<exists>t. ev = [OnUpdate t False])"
    and run: "fst (process_parsed (Some returns) acc parsed)
         = ev @ OnToolCall (completed_calls ?acc)
              # (if returns (completed_calls ?acc) then [OnFinish ''tool_calls''] else [])"
    by blast
  from completed_calls_indices [of ?acc]
  obtain "is" where "sorted_wrt (<) is"
    and "set is = {i. \<exists>tc. arr_get ?acc i = Some tc \<and> complete tc}"
    and "map Some (completed_calls ?acc) = map (arr_get ?acc) is"
    by blast
  with ev run show ?thesis
    unfolding complete_def by blast
qed

text \<open>
  The theorem at a terminal frame that brings a fragment with an id only for index 2,
  after the two calls of indices 0 and 1 were accumulated: the batch is the records of
  indices 0 and 1, in this order.
\<close>

theorem tool_call_batch_complete_ascending_witness:
  \<open>\<exists>ev batch is.
      (ev = [] \<or> (\<exists>t. ev = [OnUpdate t False]))
      \<and> fst (process_parsed (Some (\<lambda>batch. True))
               (foldl accumulate [] [read_1, search_1, read_2]) tool_calls_chunk)
          = ev @ OnToolCall batch # (if True then [OnFinish ''tool_calls''] else [])
      \<and> sorted_wrt (<) is
      \<and> set is = {i. \<exists>tc. arr_get (foldl accumulate (foldl accumulate [] [read_1, search_1, read_2])
                                     (frame_fragments tool_calls_chunk)) i = Some tc
                        \<and> tc_id tc \<noteq> [] \<and> tc_name tc \<noteq> [] \<and> tc_arguments tc \<noteq> []}
      \<and> map Some batch = map (arr_get (foldl accumulate (foldl accumulate [] [read_1, search_1, read_2])
                                          (frame_fragments tool_calls_chunk))) is\<close>
proof -
  have "choices tool_calls_chunk = Some (tool_calls_choice # [])"
    and "finish_reason tool_calls_choice = Some ''tool_calls''"
    by (simp_all add: tool_calls_chunk_def tool_calls_choice_def)
  then show ?thesis
    using tool_call_batch_complete_ascending
            [of tool_calls_chunk tool_calls_choice "[]" "\<lambda>batch. True"
                "foldl accumulate [] [read_1, search_1, read_2]"]
    by simp
qed

lemma completed_calls_scenario:
  \<open>completed_calls (foldl accumulate (foldl accumulate [] [read_1, search_1, read_2])
                      (frame_fragments tool_calls_chunk))
     = [call ''call_0'' ''obsidian_readFile'' ''{"path":"a.md"}'',
        call ''call_1'' ''obsidian_searchNotes'' ''{"query":"x"}'']\<close>
  by (simp add: completed_calls_def map_filter_def frame_fragments_def tool_calls_chunk_def tool_calls_choice_def
        read_1_def read_2_def search_1_def fragment_def accumulate_def arr_get_def arr_set_def
        apply_chunk_def when_truthy_def fresh_tool_call_def complete_def call_def Let_def)

section \<open>The adapters\<close>

lemma openai_run:
  "requests (OpenAIProvider_generateResponse parse fetch messages settings cb) = [request]
   \<Longrightarrow> events (OpenAIProvider_generateResponse parse fetch messages settings cb)
        = fst (openai_try parse cb (fetch request))
          @ openai_catch (snd (openai_try parse cb (fetch request)))"
  by (auto simp: OpenAIProvider_generateResponse_def Let_def split: option.splits prod.splits)

lemma ollama_run:
  "requests (OllamaProvider_generateResponse parse fetch messages settings) = [request]
   \<Longrightarrow> events (OllamaProvider_generateResponse parse fetch messages settings)
        = fst (ollama_try parse (fetch request)) @ ollama_catch (snd (ollama_try parse (fetch request)))"
  by (auto simp: OllamaProvider_generateResponse_def Let_def split: option.splits prod.splits)

lemma anthropic_run:
  "requests (AnthropicProvider_generateResponse parse fetch messages settings) = [request]
   \<Longrightarrow> events (AnthropicProvider_generateResponse parse fetch messages settings)
        = fst (anthropic_try parse (fetch request))
          @ anthropic_catch (snd (anthropic_try parse (fetch request)))"
  by (auto simp: AnthropicProvider_generateResponse_def Let_def
        split: option.splits prod.splits if_splits)

text \<open>
  Claim C1. Whichever adapter runs: when it issued its request and \<open>fetch\<close> rejects with
  an error named \<open>AbortError\<close>, the callbacks invoked are \<open>onFinish("aborted")\<close> and
  nothing else; in particular \<open>onError\<close> is not invoked.
\<close>

theorem aborted_fetch_finishes_aborted:
  "requests (generateResponse adapter parsers fetch messages settings cb) = [request] \<Longrightarrow>
   fetch request = Rejected e \<Longrightarrow>
   exn_name e = ''AbortError'' \<Longrightarrow>
   events (generateResponse adapter parsers fetch messages settings cb)
     = [OnFinish ''aborted'']"
proof (cases adapter)
  case OpenAIAdapter
  assume "requests (generateResponse adapter parsers fetch messages settings cb) = [request]"
    and "fetch request = Rejected e" and "exn_name e = ''AbortError''"
  with OpenAIAdapter show ?thesis
    by (simp add: generateResponse_def openai_run openai_try_def openai_catch_def)
next
  case OllamaAdapter
  assume "requests (generateResponse adapter parsers fetch messages settings cb) = [request]"
    and "fetch request = Rejected e" and "exn_name e = ''AbortError''"
  with OllamaAdapter show ?thesis
    by (simp add: generateResponse_def ollama_run ollama_try_def ollama_catch_def)
next
  case AnthropicAdapter
  assume "requests (generateResponse adapter parsers fetch messages settings cb) = [request]"
    and "fetch request = Rejected e" and "exn_name e = ''AbortError''"
  with AnthropicAdapter show ?thesis
    by (simp add: generateResponse_def anthropic_run anthropic_try_def anthropic_catch_def)
qed

lemma configured_requests:
  "requests (generateResponse OpenAIAdapter no_parsers aborting_fetch [message User ''hello'']
               configured_settings None)
     = [\<lparr>url = ''http://localhost:1234/v1/chat/completions'',
         headers = [(''Content-Type'', ''application/json'')],
         request_body = OpenAIRequest ''gpt-3.5-turbo'' [message User ''hello''] None None\<rparr>]"
  "requests (generateResponse OllamaAdapter no_parsers aborting_fetch [message User ''hello'']
               configured_settings None)
     = [\<lparr>url = ''http://localhost:11434/api/chat'',
         headers = [(''Content-Type'', ''application/json'')],
         request_body = OllamaChatRequest ''llama3'' [message User ''hello'']\<rparr>]"
  "requests (generateResponse AnthropicAdapter no_parsers aborting_fetch [message User ''hello'']
               configured_settings None)
     = [\<lparr>url = ''https://api.anthropic.com/v1/messages'',
         headers = [(''Content-Type'', ''application/json''), (''x-api-key'', ''sk-test''),
                    (''anthropic-version'', ''2023-06-01'')],
         request_body = AnthropicRequest ''claude-3-haiku-20240307'' [(AUser, ''hello'')] None\<rparr>]"
  by (simp_all add: generateResponse_def OpenAIProvider_generateResponse_def
        OllamaProvider_generateResponse_def AnthropicProvider_generateResponse_def
        configured_settings_def no_parsers_def aborting_fetch_def abort_error_def
        js_or_def truthy_def truthy_value_def or_default_def Let_def message_def
        openai_try_def ollama_try_def anthropic_try_def convertToAnthropicMessages_def
        convert_message_def strip_trailing_slashes_def)

text \<open>The theorem at each of the three adapters, with its settings in place.\<close>

theorem aborted_fetch_finishes_aborted_witness:
  "events (generateResponse OpenAIAdapter no_parsers aborting_fetch [message User ''hello'']
             configured_settings None) = [OnFinish ''aborted'']
   \<and> events (generateResponse OllamaAdapter no_parsers aborting_fetch [message User ''hello'']
               configured_settings None) = [OnFinish ''aborted'']
   \<and> events (generateResponse AnthropicAdapter no_parsers aborting_fetch [message User ''hello'']
               configured_settings None) = [OnFinish ''aborted'']"
proof -
  have rejected: "aborting_fetch request = Rejected abort_error" for request
    by (simp add: aborting_fetch_def)
  have name: "exn_name abort_error = ''AbortError''"
    by (simp add: abort_error_def)
  show ?thesis
    using aborted_fetch_finishes_aborted [OF configured_requests(1) rejected name]
      aborted_fetch_finishes_aborted [OF configured_requests(2) rejected name]
      aborted_fetch_finishes_aborted [OF configured_requests(3) rejected name]
    by simp
qed


lemma truthy_value_None: "truthy_value v = None \<longleftrightarrow> \<not> truthy v"
  by (simp add: truthy_value_def truthy_def split: option.splits)

lemma truthy_value_Some: "truthy_value v = Some s \<Longrightarrow> truthy v"
  by (simp add: truthy_value_def truthy_def split: option.splits if_splits)

lemma openai_missing_configuration:
  assumes "\<not> truthy (configured_endpoint OpenAIAdapter settings)
     \<or> \<not> truthy (configured_model OpenAIAdapter settings)"
  shows "\<exists>msg. OpenAIProvider_generateResponse parse fetch messages settings cb
           = \<lparr>events = [OnError msg], requests = []\<rparr>"
proof -
  let ?ps = "settings_of settings openai"
  let ?endpoint = "js_or (apiEndpoint ?ps) (settings_apiEndpoint settings)"
  let ?model = "js_or (defaultModel ?ps) (settings_defaultModel settings)"
  show ?thesis
  proof (cases "truthy_value ?endpoint")
    case None
    then show ?thesis
      by (simp add: OpenAIProvider_generateResponse_def settings_of_def Let_def)
  next
    case (Some endpoint)
    then have "truthy ?endpoint"
      by (rule truthy_value_Some)
    with assms have "truthy_value ?model = None"
      by (simp add: configured_endpoint_def configured_model_def truthy_value_None)
    with Some show ?thesis
      by (simp add: OpenAIProvider_generateResponse_def settings_of_def Let_def)
  qed
qed

lemma ollama_missing_configuration:
  assumes "\<not> truthy (configured_endpoint OllamaAdapter settings)
     \<or> \<not> truthy (configured_model OllamaAdapter settings)"
  shows "\<exists>msg. OllamaProvider_generateResponse parse fetch messages settings
           = \<lparr>events = [OnError msg], requests = []\<rparr>"
proof (cases "providerSettings settings ollama")
  case None
  then show ?thesis
    by (simp add: OllamaProvider_generateResponse_def Let_def)
next
  case (Some ps)
  show ?thesis
  proof (cases "truthy_value (apiEndpoint ps)")
    case None
    with Some show ?thesis
      by (simp add: OllamaProvider_generateResponse_def Let_def)
  next
    case endpoint: (Some endpoint)
    then have "truthy (apiEndpoint ps)"
      by (rule truthy_value_Some)
    with assms Some have "truthy_value (defaultModel ps) = None"
      by (simp add: configured_endpoint_def configured_model_def settings_of_def
            truthy_value_None)
    with Some endpoint show ?thesis
      by (simp add: OllamaProvider_generateResponse_def Let_def)
  qed
qed

lemma anthropic_missing_key:
  assumes "\<not> truthy (apiKey (settings_of settings anthropic))"
  shows "AnthropicProvider_generateResponse parse fetch messages settings
           = \<lparr>events = [OnError ''Anthropic API key is not set.''], requests = []\<rparr>"
proof -
  from assms have "truthy_value (apiKey (settings_of settings anthropic)) = None"
    by (simp add: truthy_value_None)
  then show ?thesis
    by (simp add: AnthropicProvider_generateResponse_def settings_of_def Let_def)
qed

lemma or_default_not_empty: "d \<noteq> [] \<Longrightarrow> or_default a d \<noteq> []"
  by (simp add: or_default_def split: option.splits)

lemma anthropic_nothing_to_send:
  assumes "truthy (apiKey (settings_of settings anthropic))"
    and "convertToAnthropicMessages messages = ([], None)"
  shows "AnthropicProvider_generateResponse parse fetch messages settings
           = \<lparr>events = [OnError ''No messages to send to Anthropic.''], requests = []\<rparr>"
proof -
  let ?ps = "settings_of settings anthropic"
  have model: "or_default (defaultModel ?ps) ''claude-3-haiku-20240307'' \<noteq> []"
    by (rule or_default_not_empty) simp
  from assms(1) obtain key where key: "truthy_value (apiKey ?ps) = Some key"
    by (cases "truthy_value (apiKey ?ps)") (simp_all add: truthy_value_None)
  show ?thesis
    using key model assms(2)
    by (simp add: AnthropicProvider_generateResponse_def settings_of_def Let_def)
qed

lemma anthropic_defaults:
  assumes "truthy (apiKey (settings_of settings anthropic))"
    and "convertToAnthropicMessages messages \<noteq> ([], None)"
  shows "\<exists>request. requests (AnthropicProvider_generateResponse parse fetch messages settings)
                      = [request]
     \<and> url request
         = strip_trailing_slashes
             (or_default (configured_endpoint AnthropicAdapter settings) ''https://api.anthropic.com'')
           @ ''/v1/messages''
     \<and> request_body request
         = AnthropicRequest
             (or_default (configured_model AnthropicAdapter settings) ''claude-3-haiku-20240307'')
             (fst (convertToAnthropicMessages messages))
             (snd (convertToAnthropicMessages messages))"
proof -
  let ?ps = "settings_of settings anthropic"
  have model: "or_default (defaultModel ?ps) ''claude-3-haiku-20240307'' \<noteq> []"
    by (rule or_default_not_empty) simp
  from assms(1) obtain key where key: "truthy_value (apiKey ?ps) = Some key"
    by (cases "truthy_value (apiKey ?ps)") (simp_all add: truthy_value_None)
  obtain anthropicMessages systemPrompt
    where conv: "convertToAnthropicMessages messages = (anthropicMessages, systemPrompt)"
    by (cases "convertToAnthropicMessages messages")
  with assms(2) have some: "\<not> (anthropicMessages = [] \<and> systemPrompt = None)"
    by simp
  obtain evs c where run:
    "anthropic_try parse
       (fetch \<lparr>url = strip_trailing_slashes
                        (or_default (apiEndpoint ?ps) ''https://api.anthropic.com'') @ ''/v1/messages'',
               headers = [(''Content-Type'', ''application/json''), (''x-api-key'', key),
                          (''anthropic-version'', ''2023-06-01'')],
               request_body =
                 AnthropicRequest (or_default (defaultModel ?ps) ''claude-3-haiku-20240307'')
                   anthropicMessages systemPrompt\<rparr>) = (evs, c)"
    by (cases "anthropic_try parse
       (fetch \<lparr>url = strip_trailing_slashes
                        (or_default (apiEndpoint ?ps) ''https://api.anthropic.com'') @ ''/v1/messages'',
               headers = [(''Content-Type'', ''application/json''), (''x-api-key'', key),
                          (''anthropic-version'', ''2023-06-01'')],
               request_body =
                 AnthropicRequest (or_default (defaultModel ?ps) ''claude-3-haiku-20240307'')
                   anthropicMessages systemPrompt\<rparr>)")
  have "requests (AnthropicProvider_generateResponse parse fetch messages settings)
      = [\<lparr>url = strip_trailing_slashes
                        (or_default (apiEndpoint ?ps) ''https://api.anthropic.com'') @ ''/v1/messages'',
               headers = [(''Content-Type'', ''application/json''), (''x-api-key'', key),
                          (''anthropic-version'', ''2023-06-01'')],
               request_body =
                 AnthropicRequest (or_default (defaultModel ?ps) ''claude-3-haiku-20240307'')
                   anthropicMessages systemPrompt\<rparr>]"
    using key conv some model run
    by (simp add: AnthropicProvider_generateResponse_def settings_of_def Let_def)
  with conv show ?thesis
    by (simp add: configured_endpoint_def configured_model_def)
qed
text \<open>
  Claim C6, as stated, at the Anthropic adapter: the settings supply neither an endpoint
  nor a model, and the adapter fetches from the built-in endpoint with the built-in model
  instead of reporting a configuration error.
\<close>

theorem anthropic_defaults_counterexample:
  "configured_endpoint AnthropicAdapter bare_settings = None
   \<and> configured_model AnthropicAdapter bare_settings = None
   \<and> generateResponse AnthropicAdapter no_parsers aborting_fetch [message User ''hello'']
         bare_settings None
       = \<lparr>events = [OnFinish ''aborted''],
          requests =
            [\<lparr>url = ''https://api.anthropic.com/v1/messages'',
              headers = [(''Content-Type'', ''application/json''), (''x-api-key'', ''sk-test''),
                         (''anthropic-version'', ''2023-06-01'')],
              request_body =
                AnthropicRequest ''claude-3-haiku-20240307'' [(AUser, ''hello'')] None\<rparr>]\<rparr>"
  by (simp add: generateResponse_def AnthropicProvider_generateResponse_def
        configured_endpoint_def configured_model_def settings_of_def
        bare_settings_def no_parsers_def aborting_fetch_def abort_error_def
        truthy_value_def or_default_def Let_def message_def
        anthropic_try_def anthropic_catch_def convertToAnthropicMessages_def
        convert_message_def strip_trailing_slashes_def)

text \<open>
  Claim C6, amended. For the OpenAI-compatible adapter and the Ollama adapter: when the
  settings supply no endpoint or no model (absent or empty; for OpenAI the provider's
  entry or else the global setting, for Ollama the provider's entry), \<open>generateResponse\<close>
  calls \<open>onError\<close> once, calls nothing else and fetches nothing. The Anthropic adapter, for
  any endpoint and model setting, supplied or not: without an API key it calls \<open>onError\<close>
  with \<open>Anthropic API key is not set.\<close> and fetches nothing; with a key and a transcript
  that converts to no message and no system prompt, it calls \<open>onError\<close> with
  \<open>No messages to send to Anthropic.\<close> and fetches nothing; with a key and a transcript
  that converts to a message or a system prompt, it issues exactly one request, to the
  endpoint of the settings, or \<open>https://api.anthropic.com\<close> when they supply none, with
  the trailing slashes dropped and \<open>/v1/messages\<close> appended, and with the model of the
  settings, or \<open>claude-3-haiku-20240307\<close> when they supply none, the converted messages
  and the system prompt.
\<close>

theorem missing_configuration_reported:
  "((adapter = OpenAIAdapter \<or> adapter = OllamaAdapter)
      \<and> (\<not> truthy (configured_endpoint adapter settings)
           \<or> \<not> truthy (configured_model adapter settings))
      \<longrightarrow> (\<exists>msg. generateResponse adapter parsers fetch messages settings cb
                   = \<lparr>events = [OnError msg], requests = []\<rparr>))
   \<and> (\<not> truthy (apiKey (settings_of settings anthropic))
      \<longrightarrow> generateResponse AnthropicAdapter parsers fetch messages settings cb
            = \<lparr>events = [OnError ''Anthropic API key is not set.''], requests = []\<rparr>)
   \<and> (truthy (apiKey (settings_of settings anthropic))
        \<and> convertToAnthropicMessages messages = ([], None)
      \<longrightarrow> generateResponse AnthropicAdapter parsers fetch messages settings cb
            = \<lparr>events = [OnError ''No messages to send to Anthropic.''], requests = []\<rparr>)
   \<and> (truthy (apiKey (settings_of settings anthropic))
        \<and> convertToAnthropicMessages messages \<noteq> ([], None)
      \<longrightarrow> (\<exists>request.
             requests (generateResponse AnthropicAdapter parsers fetch messages settings cb)
               = [request]
             \<and> url request
                 = strip_trailing_slashes
                     (or_default (configured_endpoint AnthropicAdapter settings)
                        ''https://api.anthropic.com'')
                   @ ''/v1/messages''
             \<and> request_body request
                 = AnthropicRequest
                     (or_default (configured_model AnthropicAdapter settings)
                        ''claude-3-haiku-20240307'')
                     (fst (convertToAnthropicMessages messages))
                     (snd (convertToAnthropicMessages messages))))"
proof (intro conjI impI)
  assume "(adapter = OpenAIAdapter \<or> adapter = OllamaAdapter)
      \<and> (\<not> truthy (configured_endpoint adapter settings)
           \<or> \<not> truthy (configured_model adapter settings))"
  then show "\<exists>msg. generateResponse adapter parsers fetch messages settings cb
                   = \<lparr>events = [OnError msg], requests = []\<rparr>"
    using openai_missing_configuration [of settings "parse_openai parsers" fetch messages cb]
      ollama_missing_configuration [of settings "parse_ollama parsers" fetch messages]
    by (auto simp: generateResponse_def)
next
  assume "\<not> truthy (apiKey (settings_of settings anthropic))"
  then show "generateResponse AnthropicAdapter parsers fetch messages settings cb
            = \<lparr>events = [OnError ''Anthropic API key is not set.''], requests = []\<rparr>"
    using anthropic_missing_key [of settings "parse_anthropic parsers" fetch messages]
    by (simp add: generateResponse_def)
next
  assume "truthy (apiKey (settings_of settings anthropic))
        \<and> convertToAnthropicMessages messages = ([], None)"
  then show "generateResponse AnthropicAdapter parsers fetch messages settings cb
            = \<lparr>events = [OnError ''No messages to send to Anthropic.''], requests = []\<rparr>"
    using anthropic_nothing_to_send [of settings messages "parse_anthropic parsers" fetch]
    by (simp add: generateResponse_def)
next
  assume "truthy (apiKey (settings_of settings anthropic))
        \<and> convertToAnthropicMessages messages \<noteq> ([], None)"
  then show "\<exists>request.
             requests (generateResponse AnthropicAdapter parsers fetch messages settings cb)
               = [request]
             \<and> url request
                 = strip_trailing_slashes
                     (or_default (configured_endpoint AnthropicAdapter settings)
                        ''https://api.anthropic.com'')
                   @ ''/v1/messages''
             \<and> request_body request
                 = AnthropicRequest
                     (or_default (configured_model AnthropicAdapter settings)
                        ''claude-3-haiku-20240307'')
                     (fst (convertToAnthropicMessages messages))
                     (snd (convertToAnthropicMessages messages))"
    using anthropic_defaults [of settings messages "parse_anthropic parsers" fetch]
    by (simp add: generateResponse_def)
qed

text \<open>
  The theorem at settings that supply no endpoint and no model: the OpenAI-compatible and
  the Ollama adapter report it; the Anthropic adapter, which has its key there, builds
  its request from the defaults, reports that there is nothing to send when the
  transcript holds only a tool result, and reports a missing key once the key is taken
  away.
\<close>

theorem missing_configuration_reported_witness:
  "(\<exists>msg. generateResponse OpenAIAdapter no_parsers aborting_fetch [message User ''hello'']
             bare_settings None = \<lparr>events = [OnError msg], requests = []\<rparr>)
   \<and> (\<exists>msg. generateResponse OllamaAdapter no_parsers aborting_fetch [message User ''hello'']
               bare_settings None = \<lparr>events = [OnError msg], requests = []\<rparr>)
   \<and> generateResponse AnthropicAdapter no_parsers aborting_fetch [message User ''hello'']
         (bare_settings\<lparr>providerSettings := (\<lambda>p. None)\<rparr>) None
       = \<lparr>events = [OnError ''Anthropic API key is not set.''], requests = []\<rparr>
   \<and> generateResponse AnthropicAdapter no_parsers aborting_fetch
         [tool_message ''call_1'' ''done''] bare_settings None
       = \<lparr>events = [OnError ''No messages to send to Anthropic.''], requests = []\<rparr>
   \<and> (\<exists>request.
         requests (generateResponse AnthropicAdapter no_parsers aborting_fetch
                     [message User ''hello''] bare_settings None) = [request]
         \<and> url request = ''https://api.anthropic.com/v1/messages''
         \<and> request_body request
             = AnthropicRequest ''claude-3-haiku-20240307'' [(AUser, ''hello'')] None)"
proof -
  have missing: "\<not> truthy (configured_endpoint OpenAIAdapter bare_settings)"
    "\<not> truthy (configured_endpoint OllamaAdapter bare_settings)"
    by (simp_all add: configured_endpoint_def settings_of_def bare_settings_def no_settings_def
          js_or_def truthy_def)
  have keyless: "\<not> truthy (apiKey (settings_of (bare_settings\<lparr>providerSettings := (\<lambda>p. None)\<rparr>)
                                   anthropic))"
    by (simp add: settings_of_def no_settings_def truthy_def)
  have key: "truthy (apiKey (settings_of bare_settings anthropic))"
    by (simp add: settings_of_def bare_settings_def truthy_def)
  have conv: "convertToAnthropicMessages [message User ''hello''] = ([(AUser, ''hello'')], None)"
    by (simp add: convertToAnthropicMessages_def convert_message_def message_def truthy_value_def)
  have tool_only: "convertToAnthropicMessages [tool_message ''call_1'' ''done''] = ([], None)"
    by (simp add: convertToAnthropicMessages_def convert_message_def tool_message_def)
  have defaults:
    "strip_trailing_slashes
       (or_default (configured_endpoint AnthropicAdapter bare_settings) ''https://api.anthropic.com'')
       @ ''/v1/messages'' = ''https://api.anthropic.com/v1/messages''"
    "or_default (configured_model AnthropicAdapter bare_settings) ''claude-3-haiku-20240307''
       = ''claude-3-haiku-20240307''"
    by (simp_all add: configured_endpoint_def configured_model_def settings_of_def
          bare_settings_def or_default_def strip_trailing_slashes_def)
  show ?thesis
    using missing_configuration_reported
            [of OpenAIAdapter bare_settings no_parsers aborting_fetch "[message User ''hello'']" None]
      missing_configuration_reported
            [of OllamaAdapter bare_settings no_parsers aborting_fetch "[message User ''hello'']" None]
      missing_configuration_reported
            [of OllamaAdapter "bare_settings\<lparr>providerSettings := (\<lambda>p. None)\<rparr>" no_parsers
                aborting_fetch "[message User ''hello'']" None]
      missing_configuration_reported
            [of OllamaAdapter bare_settings no_parsers aborting_fetch
                "[tool_message ''call_1'' ''done'']" None]
      missing_configuration_reported
            [of OllamaAdapter bare_settings no_parsers aborting_fetch "[message User ''hello'']" None]
    by (simp add: missing keyless key conv tool_only defaults)
qed


section \<open>Frames in the buffer\<close>

declare drain.simps [simp del]

lemma split_boundary_frame:
  "NL \<notin> set frame \<Longrightarrow> split_boundary (frame @ NL # NL # rest) = Some (frame, rest)"
proof (induction frame)
  case Nil
  then show ?case by simp
next
  case (Cons a frame)
  then show ?case
    by (cases frame) auto
qed

lemma process_frame_data:
  "process_frame parse cb acc (''data: '' @ payload) =
     (if trim payload = ''[DONE]'' then ([], acc, False)
      else (case parse payload of
              None \<Rightarrow> ([], acc, False)
            | Some parsed \<Rightarrow> process_parsed cb acc parsed))"
  by (simp add: process_frame_def)

text \<open>A frame \<open>data: payload\<close> at the head of the buffer, for a payload of one line.\<close>

lemma drain_sse:
  assumes "NL \<notin> set payload"
  shows "drain parse cb (sse payload @ rest) acc =
     (case process_frame parse cb acc (''data: '' @ payload) of
        (evs, acc', returned) \<Rightarrow>
          if returned then (evs, None)
          else (case drain parse cb rest acc' of (evs', r) \<Rightarrow> (evs @ evs', r)))"
proof -
  define frame where "frame = ''data: '' @ payload"
  have "NL \<notin> set frame"
    using assms by (simp add: frame_def NL_def)
  then have found: "split_boundary (frame @ NL # NL # rest) = Some (frame, rest)"
    by (rule split_boundary_frame)
  have "drain parse cb (frame @ NL # NL # rest) acc =
     (case process_frame parse cb acc frame of
        (evs, acc', returned) \<Rightarrow>
          if returned then (evs, None)
          else (case drain parse cb rest acc' of (evs', r) \<Rightarrow> (evs @ evs', r)))"
    by (subst drain.simps) (simp only: found option.case prod.case)
  moreover have "sse payload @ rest = frame @ NL # NL # rest"
    by (simp add: sse_def frame_def)
  ultimately show ?thesis
    by (simp only: frame_def)
qed

lemma drain_empty: "drain parse cb [] acc = ([], Some ([], acc))"
  by (subst drain.simps) simp

lemma scenario_payloads:
  "NL \<notin> set hi_json" "NL \<notin> set there_json" "NL \<notin> set stop_json" "NL \<notin> set ''[DONE]''"
  "trim hi_json \<noteq> ''[DONE]''" "trim there_json \<noteq> ''[DONE]''" "trim stop_json \<noteq> ''[DONE]''"
  "trim ''[DONE]'' = ''[DONE]''"
  by (simp_all add: hi_json_def there_json_def stop_json_def NL_def trim_def is_space_def)

lemma scenario_parsed:
  "scenario_parse hi_json = Some (content_chunk ''Hi'')"
  "scenario_parse there_json = Some (content_chunk '' there'')"
  "scenario_parse stop_json = Some (finish_chunk ''stop'')"
  by (simp_all add: scenario_parse_def hi_json_def there_json_def stop_json_def)

lemma process_parsed_content:
  "t \<noteq> [] \<Longrightarrow> process_parsed cb acc (content_chunk t) = ([OnUpdate t False], acc, False)"
  by (simp add: process_parsed_def content_chunk_def truthy_value_def)

lemma process_parsed_finish:
  "reason \<noteq> [] \<Longrightarrow> reason \<noteq> ''tool_calls'' \<Longrightarrow>
   process_parsed cb acc (finish_chunk reason) = ([OnUpdate [] True, OnFinish reason], acc, True)"
  by (simp add: process_parsed_def finish_chunk_def truthy_value_def)

lemma openai_configured:
  "OpenAIProvider_generateResponse parse fetch messages configured_settings cb =
     (let request = \<lparr>url = ''http://localhost:1234/v1/chat/completions'',
                      headers = [(''Content-Type'', ''application/json'')],
                      request_body = OpenAIRequest ''gpt-3.5-turbo'' messages None None\<rparr>
      in \<lparr>events = fst (openai_try parse cb (fetch request))
                     @ openai_catch (snd (openai_try parse cb (fetch request))),
           requests = [request]\<rparr>)"
  by (simp add: OpenAIProvider_generateResponse_def configured_settings_def js_or_def truthy_def
        truthy_value_def Let_def split: prod.splits)

lemma openai_streaming:
  "events (OpenAIProvider_generateResponse parse (streaming_fetch pieces) messages
             configured_settings cb)
     = fst (read_loop parse cb [] [] pieces EndOfStream)
       @ openai_catch (snd (read_loop parse cb [] [] pieces EndOfStream))"
  by (simp add: openai_configured streaming_fetch_def openai_try_def Let_def)

text \<open>
  Claim C5, at a stream that ends with the \<open>[DONE]\<close> sentinel and has no frame with a
  \<open>finish_reason\<close>: the adapter forwards the content and returns without \<open>onFinish\<close>.
\<close>

theorem done_sentinel_without_finish:
  "events (OpenAIProvider_generateResponse scenario_parse
             (streaming_fetch [sse hi_json, sse ''[DONE]''])
             [message User ''hello''] configured_settings None)
     = [OnUpdate ''Hi'' False]"
proof -
  have first: "drain scenario_parse None (sse hi_json @ []) [] = ([OnUpdate ''Hi'' False], Some ([], []))"
    by (simp only: drain_sse [OF scenario_payloads(1)] process_frame_data scenario_payloads
          scenario_parsed drain_empty)
       (simp add: process_parsed_content)
  have second: "drain scenario_parse None (sse ''[DONE]'' @ []) [] = ([], Some ([], []))"
    by (simp only: drain_sse [OF scenario_payloads(4)] process_frame_data scenario_payloads
          drain_empty)
       simp
  have "read_loop scenario_parse None [] [] [sse hi_json, sse ''[DONE]''] EndOfStream
          = ([OnUpdate ''Hi'' False], Normal)"
    using first second by simp
  then show ?thesis
    by (simp add: openai_streaming openai_catch_def)
qed

subsection \<open>Streams that carry a finish reason\<close>

lemma split_boundary_append:
  "split_boundary x = Some (c, r) \<Longrightarrow> split_boundary (x @ y) = Some (c, r @ y)"
proof (induction x arbitrary: c rule: split_boundary.induct)
  case (1 a b cs)
  then show ?case
    by (cases "a = NL \<and> b = NL") auto
qed simp_all

lemma drain_no_boundary:
  "split_boundary buffer = None \<Longrightarrow> drain parse cb buffer acc = ([], Some (buffer, acc))"
  by (subst drain.simps) simp

text \<open>Text that arrives later does not change what the frames already complete give.\<close>

lemma drain_append:
  "drain parse cb (x @ y) acc =
     (case drain parse cb x acc of
        (evs, None) \<Rightarrow> (evs, None)
      | (evs, Some (r, acc')) \<Rightarrow>
          (case drain parse cb (r @ y) acc' of (evs', res) \<Rightarrow> (evs @ evs', res)))"
proof (induction parse cb x acc rule: drain.induct)
  case (1 parse cb buffer acc)
  show ?case
  proof (cases "split_boundary buffer")
    case None
    then show ?thesis
      by (simp add: drain_no_boundary split: prod.splits)
  next
    case (Some found)
    obtain chunk rest where found: "found = (chunk, rest)"
      by (cases found)
    obtain evs acc' returned where
      frame: "process_frame parse cb acc chunk = (evs, acc', returned)"
      by (cases "process_frame parse cb acc chunk")
    have here: "drain parse cb buffer acc =
        (if returned then (evs, None)
         else (case drain parse cb rest acc' of (evs', r) \<Rightarrow> (evs @ evs', r)))"
      by (subst drain.simps) (simp add: Some found frame)
    have there: "drain parse cb (buffer @ y) acc =
        (if returned then (evs, None)
         else (case drain parse cb (rest @ y) acc' of (evs', r) \<Rightarrow> (evs @ evs', r)))"
      using split_boundary_append [of buffer chunk rest y] Some found
      by (subst drain.simps) (simp add: frame)
    show ?thesis
    proof (cases returned)
      case True
      with here there show ?thesis by simp
    next
      case False
      from "1.IH" [OF Some found [symmetric] frame [symmetric] refl False]
      have "drain parse cb (rest @ y) acc' =
        (case drain parse cb rest acc' of
           (evs, None) \<Rightarrow> (evs, None)
         | (evs, Some (r, acc'')) \<Rightarrow>
             (case drain parse cb (r @ y) acc'' of (evs', res) \<Rightarrow> (evs @ evs', res)))"
        by simp
      with here there False show ?thesis
        by (simp split: prod.splits option.splits)
    qed
  qed
qed

lemma drain_remainder:
  "drain parse cb buffer acc = (evs, Some (r, acc')) \<Longrightarrow> split_boundary r = None"
proof (induction parse cb buffer acc arbitrary: evs rule: drain.induct)
  case (1 parse cb buffer acc)
  show ?case
  proof (cases "split_boundary buffer")
    case None
    with "1.prems" show ?thesis
      by (simp add: drain_no_boundary)
  next
    case (Some found)
    obtain chunk rest where found: "found = (chunk, rest)"
      by (cases found)
    obtain evs0 acc0 returned where
      frame: "process_frame parse cb acc chunk = (evs0, acc0, returned)"
      by (cases "process_frame parse cb acc chunk")
    have here: "drain parse cb buffer acc =
        (if returned then (evs0, None)
         else (case drain parse cb rest acc0 of (evs', r) \<Rightarrow> (evs0 @ evs', r)))"
      by (subst drain.simps) (simp add: Some found frame)
    with "1.prems" have going: "\<not> returned"
      by (auto split: if_splits)
    with here "1.prems" obtain evs1 where "drain parse cb rest acc0 = (evs1, Some (r, acc'))"
      by (auto split: prod.splits)
    from "1.IH" [OF Some found [symmetric] frame [symmetric] refl going this]
    show ?thesis .
  qed
qed

text \<open>
  The read loop does not depend on how the body is cut into pieces: it gives what
  draining the whole text gives.
\<close>

lemma read_loop_concat:
  "split_boundary buffer = None \<Longrightarrow>
   read_loop parse cb buffer acc pieces end =
     (case drain parse cb (buffer @ concat pieces) acc of
        (evs, None) \<Rightarrow> (evs, Normal)
      | (evs, Some left) \<Rightarrow> (evs, end_completion end))"
proof (induction pieces arbitrary: buffer acc)
  case Nil
  then show ?case
    by (cases "end") (simp_all add: drain_no_boundary end_completion_def)
next
  case (Cons piece pieces)
  obtain evs res where first: "drain parse cb (buffer @ piece) acc = (evs, res)"
    by (cases "drain parse cb (buffer @ piece) acc")
  show ?case
  proof (cases res)
    case None
    with first drain_append [of parse cb "buffer @ piece" "concat pieces" acc]
    show ?thesis
      by simp
  next
    case (Some left)
    obtain r acc' where left: "left = (r, acc')"
      by (cases left)
    from first Some left have "split_boundary r = None"
      by (auto dest: drain_remainder)
    from Cons.IH [OF this, of acc'] first Some left
      drain_append [of parse cb "buffer @ piece" "concat pieces" acc]
    show ?thesis
      by (simp split: prod.splits option.splits)
  qed
qed

lemma truthy_value_absent: "truthy_value None = None"
  by (simp add: truthy_value_def)

lemma process_parsed_not_terminal:
  assumes "frame_reason parsed = None"
  shows "\<exists>acc'. process_parsed cb acc parsed
            = ((case frame_text parsed of None \<Rightarrow> [] | Some t \<Rightarrow> [OnUpdate t False]), acc', False)"
proof (cases "choices parsed")
  case None
  then show ?thesis
    by (simp add: process_parsed_def frame_text_def)
next
  case (Some cs)
  show ?thesis
  proof (cases cs)
    case Nil
    with Some show ?thesis
      by (simp add: process_parsed_def frame_text_def)
  next
    case (Cons choice others)
    with Some assms have "truthy_value (finish_reason choice) = None"
      by (simp add: frame_reason_def)
    with Some Cons show ?thesis
      by (cases "delta choice")
         (simp_all add: process_parsed_def frame_text_def truthy_value_absent Let_def)
  qed
qed

lemma process_parsed_terminal:
  assumes "frame_reason parsed = Some reason" and "reason \<noteq> ''tool_calls''"
  shows "\<exists>acc'. process_parsed cb acc parsed
            = ((case frame_text parsed of None \<Rightarrow> [] | Some t \<Rightarrow> [OnUpdate t False])
               @ [OnUpdate [] True, OnFinish reason], acc', True)"
proof (cases "choices parsed")
  case None
  with assms show ?thesis
    by (simp add: frame_reason_def)
next
  case (Some cs)
  show ?thesis
  proof (cases cs)
    case Nil
    with Some assms show ?thesis
      by (simp add: frame_reason_def)
  next
    case (Cons choice others)
    with Some assms have "truthy_value (finish_reason choice) = Some reason"
      by (simp add: frame_reason_def)
    with Some Cons assms(2) show ?thesis
      by (cases "delta choice")
         (simp_all add: process_parsed_def frame_text_def truthy_value_absent Let_def)
  qed
qed

lemma process_frame_not_terminal:
  assumes "payload_reason parse payload = None"
  shows "\<exists>acc'. process_frame parse cb acc (''data: '' @ payload)
            = (payload_updates parse payload, acc', False)"
proof (cases "payload_frame parse payload")
  case None
  then show ?thesis
    unfolding process_frame_data
    by (simp add: payload_updates_def payload_frame_def split: if_splits)
next
  case (Some parsed)
  with assms have "frame_reason parsed = None"
    by (simp add: payload_reason_def)
  from process_parsed_not_terminal [OF this, of cb acc] Some show ?thesis
    unfolding process_frame_data
    by (simp add: payload_updates_def payload_frame_def split: if_splits)
qed

lemma process_frame_terminal:
  assumes "payload_reason parse payload = Some reason" and "reason \<noteq> ''tool_calls''"
  shows "\<exists>acc'. process_frame parse cb acc (''data: '' @ payload)
            = (payload_updates parse payload @ [OnUpdate [] True, OnFinish reason], acc', True)"
proof (cases "payload_frame parse payload")
  case None
  with assms show ?thesis
    by (simp add: payload_reason_def)
next
  case (Some parsed)
  with assms have "frame_reason parsed = Some reason"
    by (simp add: payload_reason_def)
  from process_parsed_terminal [OF this assms(2), of cb acc] Some show ?thesis
    unfolding process_frame_data
    by (simp add: payload_updates_def payload_frame_def split: if_splits)
qed

lemma drain_frames:
  assumes "\<forall>payload \<in> set payloads. NL \<notin> set payload \<and> payload_reason parse payload = None"
    and "NL \<notin> set final"
    and "payload_reason parse final = Some reason"
    and "reason \<noteq> ''tool_calls''"
  shows "drain parse cb (concat (map sse payloads) @ sse final @ rest) acc
           = (concat (map (payload_updates parse) (payloads @ [final]))
              @ [OnUpdate [] True, OnFinish reason], None)"
  using assms(1)
proof (induction payloads arbitrary: acc)
  case Nil
  from process_frame_terminal [OF assms(3,4), of cb acc]
  obtain acc' where "process_frame parse cb acc (''data: '' @ final)
            = (payload_updates parse final @ [OnUpdate [] True, OnFinish reason], acc', True)"
    by blast
  then have "drain parse cb (sse final @ rest) acc
           = (payload_updates parse final @ [OnUpdate [] True, OnFinish reason], None)"
    by (simp only: drain_sse [OF assms(2)] prod.case if_True)
  then show ?case
    by simp
next
  case (Cons payload payloads)
  then have line: "NL \<notin> set payload" and going: "payload_reason parse payload = None"
    and others: "\<forall>payload \<in> set payloads. NL \<notin> set payload \<and> payload_reason parse payload = None"
    by simp_all
  from process_frame_not_terminal [OF going, of cb acc]
  obtain acc' where frame: "process_frame parse cb acc (''data: '' @ payload)
            = (payload_updates parse payload, acc', False)"
    by blast
  let ?later = "concat (map sse payloads) @ sse final @ rest"
  have "drain parse cb (sse payload @ ?later) acc
          = (case drain parse cb ?later acc' of
               (evs', r) \<Rightarrow> (payload_updates parse payload @ evs', r))"
    by (simp only: drain_sse [OF line] frame prod.case if_False)
  also have "drain parse cb ?later acc'
          = (concat (map (payload_updates parse) (payloads @ [final]))
              @ [OnUpdate [] True, OnFinish reason], None)"
    by (rule Cons.IH [OF others])
  finally show ?case
    by simp
qed

text \<open>
  Streams that do carry a finish reason. Let the body, however it is cut into pieces, be
  a sequence of \<open>data:\<close> frames with one-line payloads, of which the last has a
  \<open>finish_reason\<close> other than \<open>tool_calls\<close> and none before it has one (whatever follows
  that frame, a \<open>[DONE]\<close> frame for instance). Then the adapter forwards the contents of
  the frames in their order, each with \<open>isFinal\<close> false, then calls \<open>onUpdate("", true)\<close>
  and \<open>onFinish\<close> with the reason, once, and returns.
\<close>

lemma finish_reason_stream:
  assumes "concat pieces = concat (map sse payloads) @ sse final @ rest"
    and "\<forall>payload \<in> set payloads. NL \<notin> set payload \<and> payload_reason parse payload = None"
    and "NL \<notin> set final"
    and "payload_reason parse final = Some reason"
    and "reason \<noteq> ''tool_calls''"
  shows "read_loop parse cb [] [] pieces end
           = (concat (map (payload_updates parse) (payloads @ [final]))
              @ [OnUpdate [] True, OnFinish reason], Normal)"
proof -
  have "split_boundary [] = None"
    by simp
  then have "read_loop parse cb [] [] pieces end =
     (case drain parse cb ([] @ concat pieces) [] of
        (evs, None) \<Rightarrow> (evs, Normal)
      | (evs, Some left) \<Rightarrow> (evs, end_completion end))"
    by (rule read_loop_concat)
  also have "drain parse cb ([] @ concat pieces) []
           = (concat (map (payload_updates parse) (payloads @ [final]))
              @ [OnUpdate [] True, OnFinish reason], None)"
    using drain_frames [OF assms(2-5), of cb rest "[]"] assms(1) by simp
  finally show ?thesis
    by simp
qed

section \<open>Tool execution\<close>

text \<open>
  Claim C9, as stated, at a command whose identifier is the name of a built-in tool: the
  command runs (the state logs it), the result is the command's synthetic message, and
  the built-in tool, which would have returned the note, is not consulted.
\<close>

theorem command_shadows_builtin_counterexample:
  "fst (executeTool shadowing_host registered_service ''obsidian_readFile''
          (JObj [(''path'', JStr ''a.md'')]) [])
     = \<lparr>isError = False,
        result_content = [''Successfully executed Obsidian command: Read aloud'']\<rparr>
   \<and> snd (snd (executeTool shadowing_host registered_service ''obsidian_readFile''
                  (JObj [(''path'', JStr ''a.md'')]) []))
     = [''obsidian_readFile'']
   \<and> fst (readFile shadowing_host (member (JObj [(''path'', JStr ''a.md'')]) ''path'') [])
     = \<lparr>isError = False, result_content = [''# Note'']\<rparr>"
  by (simp add: executeTool_def shadowing_host_def registered_service_def text_result_of_def
        member_def)

text \<open>
  Claim C9, amended. The command palette is searched first. When the name is a command
  identifier, whether or not it also names a built-in tool, the command is invoked; its
  boolean result is ignored and the result is the message \<open>Successfully executed Obsidian
  command:\<close> with the command's name (an error result if the invocation throws), and the
  host's state is the one the command left, with the cache file saved on top when the
  tool is registered. Only a name that is no command identifier reaches the built-in
  tools, and a name that is neither gets the not-found error.
\<close>

theorem command_lookup_precedes_builtin:
  "(find (\<lambda>cmd. command_id cmd = toolName) (listCommands app w) = Some cmd
      \<longrightarrow> fst (executeTool app service toolName args w)
            = (case fst (executeCommandById app toolName w) of
                 Inr b \<Rightarrow>
                   \<lparr>isError = False,
                    result_content =
                      [''Successfully executed Obsidian command: '' @ command_name cmd]\<rparr>
               | Inl e \<Rightarrow>
                   \<lparr>isError = True,
                    result_content =
                      [''Error executing Obsidian command '' @ quoted toolName @ '': ''
                       @ template (exn_message e)]\<rparr>)
          \<and> (snd (snd (executeTool app service toolName args w))
                = snd (executeCommandById app toolName w)
              \<or> (\<exists>cache. snd (snd (executeTool app service toolName args w))
                    = saveCommandMcpCacheToFile app cache
                        (snd (executeCommandById app toolName w)))))
   \<and> (find (\<lambda>cmd. command_id cmd = toolName) (listCommands app w) = None
      \<longrightarrow> (toolName = ''obsidian_readFile''
             \<longrightarrow> fst (executeTool app service toolName args w)
                   = fst (readFile app (member args ''path'') w))
          \<and> (toolName = ''obsidian_writeFile''
             \<longrightarrow> fst (executeTool app service toolName args w)
                   = fst (writeFile app (member args ''path'') (member args ''content'') w))
          \<and> (toolName = ''obsidian_searchNotes''
             \<longrightarrow> fst (executeTool app service toolName args w)
                   = fst (searchNotes app (member args ''query'') (member args ''max_results'') w))
          \<and> (toolName \<notin> set builtin_tools
             \<longrightarrow> executeTool app service toolName args w
                   = (\<lparr>isError = True,
                       result_content = [''Local tool '' @ quoted toolName @ '' not found.'']\<rparr>,
                      service, w)))"
proof (intro conjI impI)
  assume found: "find (\<lambda>cmd. command_id cmd = toolName) (listCommands app w) = Some cmd"
  obtain outcome w1 where exec: "executeCommandById app toolName w = (outcome, w1)"
    by (cases "executeCommandById app toolName w")
  show "fst (executeTool app service toolName args w)
            = (case fst (executeCommandById app toolName w) of
                 Inr b \<Rightarrow>
                   \<lparr>isError = False,
                    result_content =
                      [''Successfully executed Obsidian command: '' @ command_name cmd]\<rparr>
               | Inl e \<Rightarrow>
                   \<lparr>isError = True,
                    result_content =
                      [''Error executing Obsidian command '' @ quoted toolName @ '': ''
                       @ template (exn_message e)]\<rparr>)"
    using found exec
    by (cases "find (\<lambda>t. tool_name t = toolName) (localTools service)"; cases outcome)
       (simp_all add: executeTool_def text_result_of_def Let_def)
  show "snd (snd (executeTool app service toolName args w))
                = snd (executeCommandById app toolName w)
              \<or> (\<exists>cache. snd (snd (executeTool app service toolName args w))
                    = saveCommandMcpCacheToFile app cache
                        (snd (executeCommandById app toolName w)))"
    using found exec
    by (cases "find (\<lambda>t. tool_name t = toolName) (localTools service)")
       (auto simp: executeTool_def Let_def)
next
  assume "find (\<lambda>cmd. command_id cmd = toolName) (listCommands app w) = None"
    and "toolName = ''obsidian_readFile''"
  then show "fst (executeTool app service toolName args w)
                   = fst (readFile app (member args ''path'') w)"
    by (simp add: executeTool_def split: prod.splits)
next
  assume "find (\<lambda>cmd. command_id cmd = toolName) (listCommands app w) = None"
    and "toolName = ''obsidian_writeFile''"
  then show "fst (executeTool app service toolName args w)
                   = fst (writeFile app (member args ''path'') (member args ''content'') w)"
    by (simp add: executeTool_def split: prod.splits)
next
  assume "find (\<lambda>cmd. command_id cmd = toolName) (listCommands app w) = None"
    and "toolName = ''obsidian_searchNotes''"
  then show "fst (executeTool app service toolName args w)
                   = fst (searchNotes app (member args ''query'') (member args ''max_results'') w)"
    by (simp add: executeTool_def split: prod.splits)
next
  assume "find (\<lambda>cmd. command_id cmd = toolName) (listCommands app w) = None"
    and "toolName \<notin> set builtin_tools"
  then show "executeTool app service toolName args w
                   = (\<lparr>isError = True,
                       result_content = [''Local tool '' @ quoted toolName @ '' not found.'']\<rparr>,
                      service, w)"
    by (simp add: executeTool_def builtin_tools_def text_result_of_def)
qed

text \<open>
  The theorem at a host with the command \<open>editor:save-file\<close>: that name runs the command,
  \<open>obsidian_readFile\<close> reads the note, and \<open>foo_bar\<close> is not found.
\<close>

theorem command_lookup_precedes_builtin_witness:
  "fst (executeTool plain_host registered_service ''editor:save-file'' (JObj []) [])
     = \<lparr>isError = False,
        result_content = [''Successfully executed Obsidian command: Save current file'']\<rparr>
   \<and> fst (executeTool plain_host registered_service ''obsidian_readFile''
            (JObj [(''path'', JStr ''a.md'')]) [])
     = \<lparr>isError = False, result_content = [''# Note'']\<rparr>
   \<and> executeTool plain_host registered_service ''foo_bar'' (JObj []) []
     = (\<lparr>isError = True, result_content = [''Local tool '' @ quoted ''foo_bar'' @ '' not found.'']\<rparr>,
        registered_service, [])"
proof -
  have command:
    "find (\<lambda>cmd. command_id cmd = ''editor:save-file'') (listCommands plain_host [])
       = Some \<lparr>command_id = ''editor:save-file'', command_name = ''Save current file''\<rparr>"
    and other:
    "find (\<lambda>cmd. command_id cmd = ''obsidian_readFile'') (listCommands plain_host []) = None"
    "find (\<lambda>cmd. command_id cmd = ''foo_bar'') (listCommands plain_host []) = None"
    by (simp_all add: plain_host_def)
  have unknown: "''foo_bar'' \<notin> set builtin_tools"
    by (simp add: builtin_tools_def)
  have run: "fst (executeCommandById plain_host ''editor:save-file'' []) = Inr True"
    and read: "fst (readFile plain_host (member (JObj [(''path'', JStr ''a.md'')]) ''path'') [])
                 = \<lparr>isError = False, result_content = [''# Note'']\<rparr>"
    by (simp_all add: plain_host_def text_result_of_def)
  show ?thesis
    using command_lookup_precedes_builtin
            [of "''editor:save-file''" plain_host "[]"
                "\<lparr>command_id = ''editor:save-file'', command_name = ''Save current file''\<rparr>"
                registered_service "JObj []"]
      command_lookup_precedes_builtin
            [of "''obsidian_readFile''" plain_host "[]" _ registered_service
                "JObj [(''path'', JStr ''a.md'')]"]
      command_lookup_precedes_builtin
            [of "''foo_bar''" plain_host "[]" _ registered_service "JObj []"]
      command other unknown run read
    by simp
qed

section \<open>The orchestrator\<close>

lemma scenario_arguments_values:
  "scenario_arguments cut_json = None"
  "scenario_arguments path_json = Some (JObj [(''path'', JStr ''a.md'')])"
  "scenario_arguments ''{}'' = Some (JObj [])"
  by (simp_all add: scenario_arguments_def cut_json_def path_json_def)

lemma scenario_env_fields:
  "host (scenario_env pieces) = plain_host"
  "parse_arguments (scenario_env pieces) = scenario_arguments"
  "startStreamingResponse (scenario_env pieces) = True"
  "activeLLMProvider (scenario_env pieces) cb messages
     = events (OpenAIProvider_generateResponse scenario_parse (streaming_fetch pieces)
                 messages configured_settings cb)"
  by (simp_all add: scenario_env_def)

lemma scenario_core_fields:
  "localToolService scenario_core = registered_service"
  "world scenario_core = []"
  "generations scenario_core = []"
  "chatHistory scenario_core
     = [message System ''You are a helpful assistant integrated into Obsidian.'']"
  by (simp_all add: scenario_core_def)

lemma run_read_call:
  "run_tool_call (scenario_env pieces) (call ident ''obsidian_readFile'' args)
     (JObj [(''path'', JStr ''a.md'')]) registered_service w
     = (tool_message ident ''# Note'', registered_service, w @ [''vault.read''])"
  by (simp add: run_tool_call_def executeTool_def scenario_env_fields plain_host_def
        registered_service_def call_def text_result_of_def member_def)

lemma run_unknown_call:
  "run_tool_call (scenario_env pieces) (call ident ''foo_bar'' args) (JObj []) registered_service w
     = (tool_message ident
          (''Error: '' @ ''Tool '' @ quoted ''foo_bar''
           @ '' is not a recognized local or Obsidian command.''),
        registered_service, w)"
  by (simp add: run_tool_call_def registered_service_def call_def)

text \<open>
  Claim C7, at two batches of two calls to \<open>obsidian_readFile\<close>, one of them with
  arguments that are cut short and so are no JSON. With the cut call first,
  \<open>onToolCall\<close> throws before any tool ran. With the cut call second, the first call's
  tool runs (the host's state logs the read) and then \<open>onToolCall\<close> throws. In both
  cases the transcript is as before: no tool entry for either call, and no follow-up
  generation.
\<close>

theorem unparsable_arguments_abort_batch:
  "onToolCall (scenario_env [])
     [call ''call_0'' ''obsidian_readFile'' cut_json, call ''call_1'' ''obsidian_readFile'' path_json]
     scenario_core
     = (False, scenario_core)
   \<and> onToolCall (scenario_env [])
       [call ''call_1'' ''obsidian_readFile'' path_json, call ''call_0'' ''obsidian_readFile'' cut_json]
       scenario_core
     = (False, scenario_core\<lparr>world := [''vault.read'']\<rparr>)"
proof -
  have args: "tc_arguments (call ident name a) = a" for ident name a
    by (simp add: call_def)
  have "run_tool_calls (scenario_env [])
          [call ''call_0'' ''obsidian_readFile'' cut_json, call ''call_1'' ''obsidian_readFile'' path_json]
          registered_service [] = Inl (registered_service, [])"
    by (simp add: scenario_env_fields scenario_arguments_values args)
  moreover have "run_tool_calls (scenario_env [])
          [call ''call_1'' ''obsidian_readFile'' path_json, call ''call_0'' ''obsidian_readFile'' cut_json]
          registered_service [] = Inl (registered_service, [''vault.read''])"
    by (simp add: scenario_env_fields scenario_arguments_values args run_read_call)
  ultimately show ?thesis
    by (simp add: onToolCall_def scenario_core_fields)
qed

text \<open>
  Claim C8, at a batch whose first call names the unknown tool \<open>foo_bar\<close> and whose
  second call has arguments that are no JSON: the error entry made for \<open>foo_bar\<close> is lost
  with the batch when \<open>onToolCall\<close> throws at the second call. The transcript is as
  before, and no follow-up generation is started. The same happens when the call to
  \<open>foo_bar\<close> itself has such arguments.
\<close>

theorem unknown_tool_entry_lost:
  "onToolCall (scenario_env [])
     [call ''call_0'' ''foo_bar'' ''{}'', call ''call_1'' ''obsidian_readFile'' cut_json]
     scenario_core
     = (False, scenario_core)
   \<and> onToolCall (scenario_env []) [call ''call_0'' ''foo_bar'' cut_json] scenario_core
     = (False, scenario_core)"
proof -
  have args: "tc_arguments (call ident name a) = a" for ident name a
    by (simp add: call_def)
  have "run_tool_calls (scenario_env [])
          [call ''call_0'' ''foo_bar'' ''{}'', call ''call_1'' ''obsidian_readFile'' cut_json]
          registered_service [] = Inl (registered_service, [])"
    by (simp add: scenario_env_fields scenario_arguments_values args run_unknown_call)
  moreover have "run_tool_calls (scenario_env []) [call ''call_0'' ''foo_bar'' cut_json]
          registered_service [] = Inl (registered_service, [])"
    by (simp add: scenario_env_fields scenario_arguments_values args)
  ultimately show ?thesis
    by (simp add: onToolCall_def scenario_core_fields)
qed

lemma streamed_reply_events:
  "events (OpenAIProvider_generateResponse scenario_parse
             (streaming_fetch [sse hi_json, sse there_json, sse stop_json @ sse ''[DONE]''])
             messages configured_settings cb)
     = [OnUpdate ''Hi'' False, OnUpdate '' there'' False, OnUpdate [] True, OnFinish ''stop'']"
proof -
  have first: "drain scenario_parse cb (sse hi_json @ []) [] = ([OnUpdate ''Hi'' False], Some ([], []))"
    by (simp only: drain_sse [OF scenario_payloads(1)] process_frame_data scenario_payloads
          scenario_parsed drain_empty)
       (simp add: process_parsed_content)
  have second: "drain scenario_parse cb (sse there_json @ []) []
                  = ([OnUpdate '' there'' False], Some ([], []))"
    by (simp only: drain_sse [OF scenario_payloads(2)] process_frame_data scenario_payloads
          scenario_parsed drain_empty)
       (simp add: process_parsed_content)
  have third: "drain scenario_parse cb (sse stop_json @ sse ''[DONE]'') []
                  = ([OnUpdate [] True, OnFinish ''stop''], None)"
    by (simp only: drain_sse [OF scenario_payloads(3)] process_frame_data scenario_payloads
          scenario_parsed)
       (simp add: process_parsed_finish)
  have "read_loop scenario_parse cb [] []
          [sse hi_json, sse there_json, sse stop_json @ sse ''[DONE]''] EndOfStream
          = ([OnUpdate ''Hi'' False, OnUpdate '' there'' False, OnUpdate [] True, OnFinish ''stop''],
             Normal)"
    using first second third by simp
  then show ?thesis
    by (simp add: openai_streaming openai_catch_def)
qed

text \<open>
  Claim C4, at its scenario: the user submits \<open>hello\<close>, the backend streams the deltas
  \<open>Hi\<close> and \<open> there\<close>, then a frame with \<open>finish_reason\<close> \<open>stop\<close>, then \<open>[DONE]\<close>. The
  adapter forwards the two deltas and then calls \<open>onUpdate("", true)\<close>; the orchestrator
  appends one assistant entry, and its content is that last chunk, the empty string.
\<close>

theorem streamed_reply_entry_is_empty:
  "handleUserMessage
     (scenario_env [sse hi_json, sse there_json, sse stop_json @ sse ''[DONE]''])
     ''hello'' scenario_core
   = scenario_core
       \<lparr>chatHistory :=
          [message System ''You are a helpful assistant integrated into Obsidian.'',
           message User ''hello'',
           message Assistant []],
        generations :=
          [[message System ''You are a helpful assistant integrated into Obsidian.'',
            message User ''hello'']]\<rparr>"
  by (simp add: handleUserMessage_def scenario_env_fields streamed_reply_events onUpdate_def
        push_def scenario_core_def Let_def)

subsection \<open>The entry of a streamed reply\<close>

text \<open>
  Whatever the deltas were: when the adapter ends a reply with a final chunk and
  \<open>onFinish\<close>, the one entry appended is the final chunk.
\<close>

lemma final_chunk_is_the_entry:
  "callbacks env (map (\<lambda>t. OnUpdate t False) deltas @ [OnUpdate final True, OnFinish reason]) core
     = push [message Assistant final] core"
  by (induction deltas) (simp_all add: onUpdate_def)

subsection \<open>Batches whose arguments all parse\<close>

text \<open>The loop over a batch throws exactly when some call's arguments are no JSON.\<close>

lemma run_tool_calls_throws:
  "(\<exists>failed. run_tool_calls env toolCalls service w = Inl failed)
     \<longleftrightarrow> \<not> onToolCall_returns env toolCalls"
proof (induction toolCalls arbitrary: service w)
  case Nil
  then show ?case
    by (simp add: onToolCall_returns_def)
next
  case (Cons toolCall toolCalls)
  show ?case
  proof (cases "parse_arguments env (tc_arguments toolCall)")
    case None
    then show ?thesis
      by (simp add: onToolCall_returns_def)
  next
    case (Some toolArgs)
    obtain msg service' w' where
      step: "run_tool_call env toolCall toolArgs service w = (msg, service', w')"
      by (cases "run_tool_call env toolCall toolArgs service w")
    from Cons [of service' w'] Some step show ?thesis
      by (auto simp: onToolCall_returns_def split: sum.splits)
  qed
qed

text \<open>What the adapter is told about \<open>onToolCall\<close> is what \<open>onToolCall\<close> does.\<close>

lemma onToolCall_returns_iff:
  "fst (onToolCall env toolCalls core) = onToolCall_returns env toolCalls"
proof (cases "toolCalls = []")
  case True
  then show ?thesis
    by (simp add: onToolCall_def onToolCall_returns_def)
next
  case False
  show ?thesis
  proof (cases "run_tool_calls env toolCalls (localToolService core) (world core)")
    case (Inl failed)
    with run_tool_calls_throws [of env toolCalls "localToolService core" "world core"] False
    show ?thesis
      by (simp add: onToolCall_def split: prod.splits)
  next
    case (Inr finished)
    with run_tool_calls_throws [of env toolCalls "localToolService core" "world core"] False
    show ?thesis
      by (simp add: onToolCall_def split: prod.splits)
  qed
qed

lemma run_tool_call_entry:
  "run_tool_call env toolCall toolArgs service w = (msg, service', w') \<Longrightarrow>
   role msg = Tool \<and> tool_call_id msg = Some (tc_id toolCall)"
  by (auto simp: run_tool_call_def tool_message_def Let_def split: option.splits prod.splits)

text \<open>
  When the loop ends, it made one tool-role entry per call, in the order of the calls,
  each with the call's id.
\<close>

lemma run_tool_calls_entries:
  "run_tool_calls env toolCalls service w = Inr (msgs, service', w') \<Longrightarrow>
   map tool_call_id msgs = map (\<lambda>toolCall. Some (tc_id toolCall)) toolCalls
   \<and> (\<forall>msg \<in> set msgs. role msg = Tool)"
proof (induction toolCalls arbitrary: service w msgs)
  case Nil
  then show ?case by simp
next
  case (Cons toolCall toolCalls)
  from Cons.prems obtain toolArgs
    where parsed: "parse_arguments env (tc_arguments toolCall) = Some toolArgs"
    by (cases "parse_arguments env (tc_arguments toolCall)") simp_all
  obtain msg service1 w1 where
    step: "run_tool_call env toolCall toolArgs service w = (msg, service1, w1)"
    by (cases "run_tool_call env toolCall toolArgs service w")
  from Cons.prems parsed step obtain rest where
    rest: "run_tool_calls env toolCalls service1 w1 = Inr (rest, service', w')"
    and msgs: "msgs = msg # rest"
    by (auto split: sum.splits)
  from Cons.IH [OF rest] run_tool_call_entry [OF step] msgs show ?case
    by simp
qed

text \<open>The entry made for a call whose name is neither a registered tool nor a command.\<close>

lemma run_tool_call_unknown:
  assumes "tc_name toolCall \<notin> set builtin_tools"
    and "tc_name toolCall \<notin> command_id ` set (listCommands (host env) w)"
  shows "\<exists>text. fst (run_tool_call env toolCall toolArgs service w)
                   = tool_message (tc_id toolCall) (''Error: '' @ text)
           \<and> sublist (tc_name toolCall) text"
proof (cases "find (\<lambda>t. tool_name t = tc_name toolCall) (localTools service)")
  case None
  have "sublist (tc_name toolCall)
          (''Tool '' @ quoted (tc_name toolCall)
           @ '' is not a recognized local or Obsidian command.'')"
    unfolding quoted_def sublist_def
    by (intro exI [of _ "''Tool '' @ [CHR 0x27]"]
          exI [of _ "CHR 0x27 # '' is not a recognized local or Obsidian command.''"]) simp
  with None show ?thesis
    by (auto simp: run_tool_call_def)
next
  case (Some localTool)
  have no_command:
    "find (\<lambda>cmd. command_id cmd = tc_name toolCall) (listCommands (host env) w) = None"
    using assms(2) by (force simp: find_None_iff image_iff)
  have result: "executeTool (host env) service (tc_name toolCall) toolArgs w
      = (\<lparr>isError = True,
          result_content = [''Local tool '' @ quoted (tc_name toolCall) @ '' not found.'']\<rparr>,
         service, w)"
    using assms(1) no_command
    by (simp add: executeTool_def builtin_tools_def text_result_of_def)
  have "sublist (tc_name toolCall) (''Local tool '' @ quoted (tc_name toolCall) @ '' not found.'')"
    unfolding quoted_def sublist_def
    by (intro exI [of _ "''Local tool '' @ [CHR 0x27]"] exI [of _ "CHR 0x27 # '' not found.''"])
       simp
  with Some result show ?thesis
    by (auto simp: run_tool_call_def)
qed

lemma run_tool_calls_unknown:
  assumes "run_tool_calls env toolCalls service w = Inr (msgs, service', w')"
    and "toolCall \<in> set toolCalls"
    and "tc_name toolCall \<notin> set builtin_tools"
    and "\<And>w. tc_name toolCall \<notin> command_id ` set (listCommands (host env) w)"
  shows "\<exists>text. tool_message (tc_id toolCall) (''Error: '' @ text) \<in> set msgs
           \<and> sublist (tc_name toolCall) text"
  using assms(1,2)
proof (induction toolCalls arbitrary: service w msgs)
  case Nil
  then show ?case by simp
next
  case (Cons first toolCalls)
  from Cons.prems(1) obtain toolArgs
    where parsed: "parse_arguments env (tc_arguments first) = Some toolArgs"
    by (cases "parse_arguments env (tc_arguments first)") simp_all
  obtain msg service1 w1 where
    step: "run_tool_call env first toolArgs service w = (msg, service1, w1)"
    by (cases "run_tool_call env first toolArgs service w")
  from Cons.prems(1) parsed step obtain rest where
    rest: "run_tool_calls env toolCalls service1 w1 = Inr (rest, service', w')"
    and msgs: "msgs = msg # rest"
    by (auto split: sum.splits)
  show ?case
  proof (cases "toolCall = first")
    case True
    from run_tool_call_unknown [OF assms(3) assms(4) [of w], where toolArgs = toolArgs
           and service = service] step True msgs
    show ?thesis
      by auto
  next
    case False
    with Cons.prems(2) have "toolCall \<in> set toolCalls"
      by simp
    from Cons.IH [OF rest this] msgs show ?thesis
      by auto
  qed
qed

text \<open>
  What \<open>onToolCall\<close> does with a batch whose arguments all parse: every call gets one tool-role entry with its id, in call order, appended to the
  transcript; a call that names neither a built-in tool nor a host command gets an entry
  whose content is \<open>Error: \<close> followed by a text that contains the name; and the follow-up
  generation is started on the transcript with these entries.
\<close>

lemma parsed_batch_reported:
  assumes "toolCalls \<noteq> []"
    and "onToolCall_returns env toolCalls"
    and "startStreamingResponse env"
  shows "\<exists>msgs core'.
      onToolCall env toolCalls core = (True, core')
      \<and> map tool_call_id msgs = map (\<lambda>toolCall. Some (tc_id toolCall)) toolCalls
      \<and> (\<forall>msg \<in> set msgs. role msg = Tool)
      \<and> prefix (chatHistory core @ msgs) (chatHistory core')
      \<and> generations core' = generations core @ [chatHistory core @ msgs]
      \<and> (\<forall>toolCall \<in> set toolCalls.
            tc_name toolCall \<notin> set builtin_tools
            \<and> (\<forall>w. tc_name toolCall \<notin> command_id ` set (listCommands (host env) w))
            \<longrightarrow> (\<exists>text. tool_message (tc_id toolCall) (''Error: '' @ text) \<in> set msgs
                        \<and> sublist (tc_name toolCall) text))"
proof -
  from run_tool_calls_throws [of env toolCalls "localToolService core" "world core"] assms(2)
  obtain msgs service w where
    run: "run_tool_calls env toolCalls (localToolService core) (world core) = Inr (msgs, service, w)"
    by (cases "run_tool_calls env toolCalls (localToolService core) (world core)") auto
  let ?pushed = "push msgs (core\<lparr>localToolService := service, world := w\<rparr>)"
  have grows: "prefix (chatHistory c) (chatHistory (continued_callbacks evs c))
      \<and> generations (continued_callbacks evs c) = generations c" for evs and c :: "'a Core"
  proof (induction evs c rule: continued_callbacks.induct)
    case (2 chunk isFinal evs core)
    have "prefix (chatHistory core) (chatHistory (onUpdate chunk isFinal core))"
      and "generations (onUpdate chunk isFinal core) = generations core"
      by (simp_all add: onUpdate_def push_def)
    with 2 show ?case
      by (auto intro: prefix_order.trans)
  qed simp_all
  let ?core' = "continueGenerationWithTools env ?pushed"
  have "onToolCall env toolCalls core = (True, ?core')"
    using assms(1) run by (simp add: onToolCall_def)
  moreover have "prefix (chatHistory core @ msgs) (chatHistory ?core')"
    and "generations ?core' = generations core @ [chatHistory core @ msgs]"
    using assms(3) grows [of "?pushed\<lparr>generations := generations ?pushed @ [chatHistory ?pushed]\<rparr>"]
    by (simp_all add: continueGenerationWithTools_def push_def)
  moreover note run_tool_calls_entries [OF run]
  moreover have "\<exists>text. tool_message (tc_id toolCall) (''Error: '' @ text) \<in> set msgs
                        \<and> sublist (tc_name toolCall) text"
    if "toolCall \<in> set toolCalls" and "tc_name toolCall \<notin> set builtin_tools"
      and "\<forall>w. tc_name toolCall \<notin> command_id ` set (listCommands (host env) w)" for toolCall
    using run_tool_calls_unknown [OF run that(1,2)] that(3) by blast
  ultimately show ?thesis
    by blast
qed

subsection \<open>The earlier generation of the orchestrator\<close>

declare ollama_drain.simps [simp del]

lemma ollama_drain_line:
  assumes "NL \<notin> set line"
  shows "ollama_drain parse (line @ NL # rest) =
     (case ollama_line parse line of
        (evs, returned) \<Rightarrow>
          if returned then (evs, None)
          else (case ollama_drain parse rest of (evs', r) \<Rightarrow> (evs @ evs', r)))"
proof -
  have "split_newline (line @ NL # rest) = Some (line, rest)"
    using assms by (induction line) auto
  then show ?thesis
    by (subst ollama_drain.simps) (simp only: option.case prod.case)
qed

lemma ollama_drain_empty: "ollama_drain parse [] = ([], Some [])"
  by (subst ollama_drain.simps) simp

lemma scenario_lines:
  "NL \<notin> set hi_line" "NL \<notin> set there_line" "NL \<notin> set done_line"
  "ollama_line scenario_parse_ollama hi_line = ([OnContent ''Hi'' False], False)"
  "ollama_line scenario_parse_ollama there_line = ([OnContent '' there'' False], False)"
  "ollama_line scenario_parse_ollama done_line = ([OnContent [] True, OnFinish ''stop''], True)"
  by (simp_all add: ollama_line_def scenario_parse_ollama_def hi_line_def there_line_def
        done_line_def NL_def trim_def is_space_def truthy_value_def)

lemma ollama_streamed_reply_events:
  "events (OllamaProvider_generateResponse scenario_parse_ollama
             (streaming_fetch [hi_line @ [NL], there_line @ [NL], done_line @ [NL]])
             messages configured_settings)
     = [OnContent ''Hi'' False, OnContent '' there'' False, OnContent [] True, OnFinish ''stop'']"
proof -
  have first: "ollama_drain scenario_parse_ollama (hi_line @ NL # []) = ([OnContent ''Hi'' False], Some [])"
    by (simp only: ollama_drain_line [OF scenario_lines(1)] scenario_lines(4) ollama_drain_empty)
       simp
  have second: "ollama_drain scenario_parse_ollama (there_line @ NL # [])
                  = ([OnContent '' there'' False], Some [])"
    by (simp only: ollama_drain_line [OF scenario_lines(2)] scenario_lines(5) ollama_drain_empty)
       simp
  have third: "ollama_drain scenario_parse_ollama (done_line @ NL # [])
                  = ([OnContent [] True, OnFinish ''stop''], None)"
    by (simp only: ollama_drain_line [OF scenario_lines(3)] scenario_lines(6)) simp
  have "ollama_read_loop scenario_parse_ollama []
          [hi_line @ [NL], there_line @ [NL], done_line @ [NL]] EndOfStream
          = ([OnContent ''Hi'' False, OnContent '' there'' False, OnContent [] True, OnFinish ''stop''],
             Normal)"
    using first second third by simp
  then show ?thesis
    by (simp add: OllamaProvider_generateResponse_def configured_settings_def streaming_fetch_def
          ollama_try_def ollama_catch_def truthy_value_def Let_def)
qed

text \<open>
  The same reply, \<open>Hi\<close> then \<open> there\<close> then the end with reason \<open>stop\<close>, through the Ollama
  adapter and the callbacks of the earlier generation: the one assistant entry appended
  is the concatenation of the deltas.
\<close>

lemma earlier_generation_accumulates:
  "processLlmTurn True
     (\<lambda>messages. events (OllamaProvider_generateResponse scenario_parse_ollama
                           (streaming_fetch [hi_line @ [NL], there_line @ [NL], done_line @ [NL]])
                           messages configured_settings))
     [message User ''hello'']
   = [message User ''hello'', message Assistant ''Hi there'']"
  by (simp add: processLlmTurn_def ollama_streamed_reply_events)

end
